theory Spec2Isabelle
  imports Main "HOL-Library.Char_ord" "HOL-Library.List_Lexorder"
begin

section \<open>Data model\<close>

text \<open>
  An identifier value (\<open>id\<close>, \<open>_id\<close>, \<open>uuid\<close>) is a JavaScript number or string.
  On two such values \<open>===\<close> is HOL equality. A property that is absent reads
  \<open>undefined\<close>; this is \<open>None\<close> below, so \<open>undefined === undefined\<close> holds and
  \<open>undefined === v\<close> does not.
\<close>

datatype jsid = Num int | Str string

text \<open>
  A timestamp is a string, as the constant \<open>DOB\<close> of base-engine.js and the dates of a
  record that came over the wire are, or a \<open>Date\<close> object, as \<open>_mutateStore\<close> writes
  with \<open>new Date()\<close>, given by its time value in milliseconds. A string timestamp is no
  numeric literal (an ISO-8601 string is none).
\<close>

datatype jstime = Iso string | Date int

text \<open>
  \<open>a > b\<close> on timestamps. Two strings are compared lexicographically, which is the order
  of \<open>string\<close> here, and two \<open>Date\<close> objects by their time values. Between a \<open>Date\<close> and
  a string the string is converted to a number, which is \<open>NaN\<close>, and the comparison is
  false.
\<close>

fun js_gt :: "jstime \<Rightarrow> jstime \<Rightarrow> bool" where
  "js_gt (Iso a) (Iso b) = (a > b)"
| "js_gt (Date a) (Date b) = (a > b)"
| "js_gt (Iso a) (Date b) = False"
| "js_gt (Date a) (Iso b) = False"

text \<open>\<open>if (t)\<close> on a timestamp: the empty string is falsy, a \<open>Date\<close> object never is.\<close>

definition truthy :: "jstime \<Rightarrow> bool" where
  "truthy t = (t \<noteq> Iso [])"

text \<open>
  A Record: the server identifiers \<open>id\<close> and \<open>_id\<close>, the client identifier \<open>uuid\<close>,
  the timestamp \<open>updatedAt\<close> and the remaining domain fields.
\<close>

record rcd =
  rid :: "jsid option"
  r_id :: "jsid option"
  uuid :: "jsid option"
  updatedAt :: "jstime option"
  other :: "(string \<times> jsid) list"

text \<open>\<open>store.last\<close>: \<open>{ source, action, eventName, record }\<close>, each but \<open>action\<close> optional.\<close>

record last_t =
  l_source :: "int option"
  l_action :: string
  l_eventName :: "string option"
  l_record :: "rcd option"

text \<open>
  A params object as the Mutator reads it through \<open>filterQuery\<close> and \<open>select\<close> of
  @feathersjs/adapter-commons: the optional \<open>query\<close> object, the filters \<open>$select\<close>,
  \<open>$sort\<close>, \<open>$skip\<close>, \<open>$limit\<close> of that query, and whether \<open>paginate.default\<close> is set.
  The \<open>query\<close> object is given by its identity, a number, and its plain keys (among
  them the test flags \<open>_fail\<close> and \<open>_timeout\<close>): the caller's params object is handed on
  as it is and kept in the queue, so several queue entries may hold the same \<open>query\<close>
  object, and they do when the numbers are the same.
\<close>

record params =
  p_query :: "(nat \<times> (string \<times> jsid) list) option"
  p_select :: "string list option"
  p_sort :: "(string \<times> int) list option"
  p_skip :: "nat option"
  p_limit :: "nat option"
  p_paginate :: bool

text \<open>
  An argument of a queued remote call: \<open>null\<close> or \<open>undefined\<close>, an identifier, a record
  (the data of create, update and patch) or a params object.
\<close>

datatype arg = ANullish | AId jsid | AData rcd | AParams params

record qentry =
  q_eventName :: string
  q_record :: "rcd option"
  q_args :: "arg list"

record store_t =
  syncedAt :: jstime
  last :: last_t
  records :: "rcd list"
  queued :: "qentry list"

text \<open>
  What the Engine sends out: \<open>this.emit('events', records, last)\<close> and
  \<open>this._subscriber(records, last)\<close>, with the value of the record array at that moment.
\<close>

datatype signal = Emit "rcd list" last_t | Subscriber "rcd list" last_t

text \<open>
  The Engine. \<open>attached\<close> lists the topics of the remote service on which one of the
  Engine's listeners is registered (with repetition); \<open>trace\<close> is everything sent out so
  far, oldest first.
\<close>

record engine =
  publication :: "(rcd \<Rightarrow> bool) option"
  sorter :: "(rcd \<Rightarrow> rcd \<Rightarrow> int) option"
  useUuid :: bool
  useUpdatedAt :: bool
  listening :: bool
  attached :: "string list"
  store :: store_t
  trace :: "signal list"

datatype error = BadRequest string | NotFound string "jsid option" | TypeError string

definition DOB :: string where
  "DOB = ''2020-05-26T00:00:00.001Z''"

section \<open>Engine (base-engine.js)\<close>

text \<open>The constructor: an empty store, not listening.\<close>

definition new_engine ::
  "(rcd \<Rightarrow> bool) option \<Rightarrow> (rcd \<Rightarrow> rcd \<Rightarrow> int) option \<Rightarrow> bool \<Rightarrow> bool \<Rightarrow> engine" where
  "new_engine pub srt uu upd =
     \<lparr> publication = pub, sorter = srt, useUuid = uu, useUpdatedAt = upd,
       listening = False, attached = [],
       store = \<lparr> syncedAt = Iso DOB,
                 last = \<lparr> l_source = None, l_action = [], l_eventName = Some [],
                          l_record = Some \<lparr> rid = None, r_id = None, uuid = None,
                                            updatedAt = None, other = [] \<rparr> \<rparr>,
                 records = [], queued = [] \<rparr>,
       trace = [] \<rparr>"

text \<open>\<open>_findIndex\<close> with its default \<open>fromIndex = 0\<close>; \<open>None\<close> is the result \<open>-1\<close>.\<close>

fun findIndex :: "'a list \<Rightarrow> ('a \<Rightarrow> bool) \<Rightarrow> nat option" where
  "findIndex [] p = None"
| "findIndex (x # xs) p = (if p x then Some 0 else map_option Suc (findIndex xs p))"

text \<open>
  \<open>_findIndexReversed\<close> with its default \<open>fromIndex\<close>: the loop runs \<open>i\<close> from
  \<open>length - 1\<close> down to \<open>0\<close>; \<open>scan_down xs p n\<close> is the loop with \<open>n - 1\<close> the next index.
  The predicates it is called with read a property of \<open>qElement.record\<close>, which throws
  when that record is \<open>undefined\<close>: a predicate returns \<open>Inl\<close> the error then, and the
  scan stops with it.
\<close>

fun scan_down :: "'a list \<Rightarrow> ('a \<Rightarrow> error + bool) \<Rightarrow> nat \<Rightarrow> error + nat option" where
  "scan_down xs p 0 = Inr None"
| "scan_down xs p (Suc i) =
     (case p (xs ! i) of
        Inl err \<Rightarrow> Inl err
      | Inr b \<Rightarrow> if b then Inr (Some i) else scan_down xs p i)"

definition findIndexReversed :: "'a list \<Rightarrow> ('a \<Rightarrow> error + bool) \<Rightarrow> error + nat option" where
  "findIndexReversed xs p = scan_down xs p (length xs)"

text \<open>\<open>array.splice(i, 1)\<close> and \<open>array.splice(i, 0, x)\<close>.\<close>

definition splice_out :: "nat \<Rightarrow> 'a list \<Rightarrow> 'a list" where
  "splice_out i xs = take i xs @ drop (Suc i) xs"

definition splice_in :: "nat \<Rightarrow> 'a \<Rightarrow> 'a list \<Rightarrow> 'a list" where
  "splice_in i x xs = take i xs @ x # drop i xs"

text \<open>
  \<open>array.sort(comparator)\<close>: the stable sort that puts \<open>a\<close> after \<open>b\<close> when
  \<open>comparator(a, b) > 0\<close> (for a comparator that is not an order the result of the
  JavaScript sort is some permutation the engine chooses; this is the one of insertion
  sort).
\<close>

fun insert_cmp :: "('a \<Rightarrow> 'a \<Rightarrow> int) \<Rightarrow> 'a \<Rightarrow> 'a list \<Rightarrow> 'a list" where
  "insert_cmp cmp x [] = [x]"
| "insert_cmp cmp x (y # ys) = (if cmp x y > 0 then y # insert_cmp cmp x ys else x # y # ys)"

definition sort_cmp :: "('a \<Rightarrow> 'a \<Rightarrow> int) \<Rightarrow> 'a list \<Rightarrow> 'a list" where
  "sort_cmp cmp xs = foldr (insert_cmp cmp) xs []"

definition sort_opt :: "('a \<Rightarrow> 'a \<Rightarrow> int) option \<Rightarrow> 'a list \<Rightarrow> 'a list" where
  "sort_opt srt xs = (case srt of None \<Rightarrow> xs | Some cmp \<Rightarrow> sort_cmp cmp xs)"

text \<open>\<open>'id' in record ? 'id' : '_id'\<close> and the read \<open>record[name]\<close> of an identifier.\<close>

definition idName :: "rcd \<Rightarrow> string" where
  "idName r = (if rid r \<noteq> None then ''id'' else ''_id'')"

definition getProp :: "string \<Rightarrow> rcd \<Rightarrow> jsid option" where
  "getProp name r =
     (if name = ''id'' then rid r else if name = ''_id'' then r_id r
      else if name = ''uuid'' then uuid r else map_of (other r) name)"

text \<open>The predicate \<open>record => record[idName] === remoteRecord[idName]\<close>.\<close>

definition same_id :: "rcd \<Rightarrow> rcd \<Rightarrow> bool" where
  "same_id remoteRecord r = (getProp (idName remoteRecord) r = getProp (idName remoteRecord) remoteRecord)"

text \<open>\<open>!this._publication || this._publication(record)\<close>.\<close>

definition passes :: "engine \<Rightarrow> rcd \<Rightarrow> bool" where
  "passes e r = (case publication e of None \<Rightarrow> True | Some p \<Rightarrow> p r)"

text \<open>
  The inner function \<open>broadcast\<close> of \<open>_mutateStore\<close>: it sets \<open>store.last\<close> and notifies the
  emitter and the subscriber with the record array.
\<close>

definition broadcast :: "int \<Rightarrow> string \<Rightarrow> rcd \<Rightarrow> string \<Rightarrow> engine \<Rightarrow> engine" where
  "broadcast source ev remoteRecord act e =
     (let l = \<lparr> l_source = Some source, l_action = act, l_eventName = Some ev,
                l_record = Some remoteRecord \<rparr>;
          recs = records (store e)
      in e\<lparr> store := (store e)\<lparr> last := l \<rparr>,
            trace := trace e @ [Emit recs l, Subscriber recs l] \<rparr>)"

definition set_records :: "rcd list \<Rightarrow> engine \<Rightarrow> engine" where
  "set_records rs e = e\<lparr> store := (store e)\<lparr> records := rs \<rparr> \<rparr>"

text \<open>
  \<open>_mutateStore(eventName, remoteRecord, source)\<close>. \<open>now\<close> is the time value of
  \<open>new Date()\<close>.
  The result is the returned value (\<open>None\<close> for \<open>null\<close> and \<open>undefined\<close>) and the Engine
  afterwards.
\<close>

definition mutateStore :: "int \<Rightarrow> string \<Rightarrow> rcd \<Rightarrow> int \<Rightarrow> engine \<Rightarrow> rcd option \<times> engine" where
  "mutateStore now ev remoteRecord source e =
     (let recs = records (store e);
          index = findIndex recs (same_id remoteRecord);
          beforeRecord = (case index of None \<Rightarrow> None | Some i \<Rightarrow> Some (recs ! i));
          e1 = (case index of None \<Rightarrow> e | Some i \<Rightarrow> set_records (splice_out i recs) e)
      in if ev = ''removed'' then
           (if index \<noteq> None then (beforeRecord, broadcast source ev remoteRecord ''remove'' e1)
            else if source = 0 \<and> passes e remoteRecord
              then (beforeRecord, broadcast source ev remoteRecord ''remove'' e1)
            else (beforeRecord, e1))
         else if \<not> passes e remoteRecord then
           (None, if index \<noteq> None then broadcast source ev remoteRecord ''left-pub'' e1 else e1)
         else
           (let stamped = remoteRecord\<lparr> updatedAt := Some (Date now) \<rparr>;
                e2 = set_records (sort_opt (sorter e) (records (store e1) @ [stamped])) e1
            in (Some stamped, broadcast source ev stamped ''mutated'' e2)))"

text \<open>
  \<open>snapshot(records)\<close>. The loop starts from \<open>DOB\<close> and takes the \<open>updatedAt\<close> of a record
  when \<open>rec.updatedAt > updatedAt\<close>; a record without \<open>updatedAt\<close> compares
  \<open>undefined > updatedAt\<close>, which is false.
\<close>

definition latest :: "rcd list \<Rightarrow> jstime" where
  "latest recs =
     foldl (\<lambda>u r. case updatedAt r of None \<Rightarrow> u | Some t \<Rightarrow> if js_gt t u then t else u)
       (Iso DOB) recs"

definition snapshot :: "rcd list \<Rightarrow> engine \<Rightarrow> engine" where
  "snapshot recs e =
     (let l = \<lparr> l_source = None, l_action = ''snapshot'', l_eventName = None, l_record = None \<rparr>;
          recs' = sort_opt (sorter e) recs
      in e\<lparr> store := (store e)\<lparr> last := l, records := recs', syncedAt := latest recs \<rparr>,
            trace := trace e @ [Emit recs' l, Subscriber recs' l] \<rparr>)"

text \<open>
  The remote service, as \<open>processQueuedEvents\<close> uses it: \<open>remote w name args\<close> is \<open>None\<close>
  when the service has no method \<open>name\<close> (the call throws), and otherwise whether the
  returned promise is fulfilled, with the state of the remote side afterwards.
\<close>

type_synonym 'w remote = "'w \<Rightarrow> string \<Rightarrow> arg list \<Rightarrow> (bool \<times> 'w) option"

text \<open>
  The inner loop of \<open>processQueuedEvents\<close>: it deletes \<open>_fail\<close> and \<open>_timeout\<close> from the
  \<open>query\<close> of every argument that has one. Reading \<open>.query\<close> of \<open>null\<close> or \<open>undefined\<close>
  throws. A record and an identifier have no \<open>query\<close> object. \<open>strip_args\<close> gives the
  arguments after the loop, \<open>None\<close> when it throws; \<open>touched\<close> gives the \<open>query\<close> objects
  the loop has written to, which are those of the arguments before the first that is
  \<open>null\<close> or \<open>undefined\<close>.
\<close>

definition strip_query :: "(string \<times> jsid) list \<Rightarrow> (string \<times> jsid) list" where
  "strip_query q = filter (\<lambda>kv. fst kv \<noteq> ''_fail'' \<and> fst kv \<noteq> ''_timeout'') q"

fun strip_arg :: "arg \<Rightarrow> arg option" where
  "strip_arg ANullish = None"
| "strip_arg (AId i) = Some (AId i)"
| "strip_arg (AData r) = Some (AData r)"
| "strip_arg (AParams p) =
     Some (AParams (p\<lparr> p_query := map_option (\<lambda>tq. (fst tq, strip_query (snd tq))) (p_query p) \<rparr>))"

fun strip_args :: "arg list \<Rightarrow> arg list option" where
  "strip_args [] = Some []"
| "strip_args (a # as) =
     (case strip_arg a of
        None \<Rightarrow> None
      | Some a' \<Rightarrow> (case strip_args as of None \<Rightarrow> None | Some as' \<Rightarrow> Some (a' # as')))"

fun touched :: "arg list \<Rightarrow> nat list" where
  "touched [] = []"
| "touched (ANullish # as) = []"
| "touched (AId i # as) = touched as"
| "touched (AData r # as) = touched as"
| "touched (AParams p # as) =
     (case p_query p of None \<Rightarrow> touched as | Some tq \<Rightarrow> fst tq # touched as)"

text \<open>
  The deletion as the other holders of a \<open>query\<close> object see it: an argument whose \<open>query\<close>
  is one of the objects \<open>ts\<close> has lost the two flags, every other argument is as it was.
\<close>

fun strip_shared :: "nat list \<Rightarrow> arg \<Rightarrow> arg" where
  "strip_shared ts (AParams p) =
     (case p_query p of
        None \<Rightarrow> AParams p
      | Some tq \<Rightarrow>
          if fst tq \<in> set ts then AParams (p\<lparr> p_query := Some (fst tq, strip_query (snd tq)) \<rparr>)
          else AParams p)"
| "strip_shared ts a = a"

definition strip_entry_shared :: "nat list \<Rightarrow> qentry \<Rightarrow> qentry" where
  "strip_entry_shared ts el = el\<lparr> q_args := map (strip_shared ts) (q_args el) \<rparr>"

text \<open>
  The \<open>while\<close> loop of \<open>processQueuedEvents\<close> on the queue it finds, with nothing else
  touching the queue while it waits for the remote service. Each round shifts the head
  \<open>el\<close> off, strips its arguments and calls \<open>service[el.eventName]\<close> with the first three;
  a rejected call puts \<open>el\<close> back at the head and stops. The entries that stay in the
  queue see the deletion in the \<open>query\<close> objects they share with \<open>el\<close>. The result is the
  exception that ended the loop if any, the queue left, the remote state and the calls
  made, oldest first, each with its outcome.
\<close>

type_synonym call = "string \<times> arg list \<times> bool"

fun drain ::
  "'w remote \<Rightarrow> qentry list \<Rightarrow> 'w \<Rightarrow> call list \<Rightarrow> error option \<times> qentry list \<times> 'w \<times> call list" where
  "drain remote [] w calls = (None, [], w, calls)"
| "drain remote (el # rest) w calls =
     (case strip_args (q_args el) of
        None \<Rightarrow>
          (Some (TypeError ''Cannot read properties of undefined (reading query)''),
           map (strip_entry_shared (touched (q_args el))) rest, w, calls)
      | Some args' \<Rightarrow>
          (case remote w (q_eventName el) (take 3 args') of
             None \<Rightarrow>
               (Some (TypeError ''this._service[event] is not a function''),
                map (strip_entry_shared (touched (q_args el))) rest, w, calls)
           | Some (ok, w') \<Rightarrow>
               if ok then
                 drain remote (map (strip_entry_shared (touched (q_args el))) rest) w'
                   (calls @ [(q_eventName el, take 3 args', True)])
               else
                 (None,
                  el\<lparr> q_args := args' \<rparr> # map (strip_entry_shared (touched (q_args el))) rest,
                  w', calls @ [(q_eventName el, take 3 args', False)])))"

definition set_queued :: "qentry list \<Rightarrow> engine \<Rightarrow> engine" where
  "set_queued q e = e\<lparr> store := (store e)\<lparr> queued := q \<rparr> \<rparr>"

definition processQueuedEvents ::
  "'w remote \<Rightarrow> 'w \<Rightarrow> engine \<Rightarrow> error option \<times> engine \<times> 'w \<times> call list" where
  "processQueuedEvents remote w e =
     (case drain remote (queued (store e)) w [] of
        (err, q, w', calls) \<Rightarrow> (err, set_queued q e, w', calls))"

text \<open>\<open>_addQueuedEvent(eventName, localRecord, ...args)\<close>.\<close>

definition addQueuedEvent :: "string \<Rightarrow> rcd option \<Rightarrow> arg list \<Rightarrow> engine \<Rightarrow> engine" where
  "addQueuedEvent ev localRecord args e =
     set_queued (queued (store e) @ [\<lparr> q_eventName = ev, q_record = localRecord, q_args = args \<rparr>]) e"

text \<open>\<open>Object.assign({}, a, b)\<close> on records: a property of \<open>b\<close> replaces that of \<open>a\<close>.\<close>

fun put_field :: "string \<times> jsid \<Rightarrow> (string \<times> jsid) list \<Rightarrow> (string \<times> jsid) list" where
  "put_field kv [] = [kv]"
| "put_field kv (x # xs) = (if fst x = fst kv then kv # xs else x # put_field kv xs)"

definition orElse :: "'a option \<Rightarrow> 'a option \<Rightarrow> 'a option" where
  "orElse b a = (case b of None \<Rightarrow> a | Some v \<Rightarrow> Some v)"

definition assign :: "rcd \<Rightarrow> rcd \<Rightarrow> rcd" where
  "assign a b =
     \<lparr> rid = orElse (rid b) (rid a), r_id = orElse (r_id b) (r_id a),
       uuid = orElse (uuid b) (uuid a), updatedAt = orElse (updatedAt b) (updatedAt a),
       other = foldl (\<lambda>acc kv. put_field kv acc) (other a) (other b) \<rparr>"

text \<open>
  The property \<open>event\<close> of a queue entry, which \<open>_addQueuedNetEvent\<close> reads: an entry is
  built as \<open>{ eventName, record, args }\<close> (in \<open>_addQueuedEvent\<close> and in the \<open>splice\<close> below)
  and has no property of that name, so the read gives \<open>undefined\<close>.
\<close>

definition q_event :: "qentry \<Rightarrow> string option" where
  "q_event q = None"

text \<open>The predicate \<open>qElement => qElement.record[idName] === localRecord[idName]\<close>.\<close>

definition q_same_id :: "rcd \<Rightarrow> qentry \<Rightarrow> error + bool" where
  "q_same_id localRecord q =
     (case q_record q of
        None \<Rightarrow> Inl (TypeError ''Cannot read properties of undefined'')
      | Some r \<Rightarrow> Inr (same_id localRecord r))"

text \<open>\<open>_addQueuedNetEvent(eventName, localRecord, ...args)\<close>.\<close>

definition addQueuedNetEvent :: "string \<Rightarrow> rcd \<Rightarrow> arg list \<Rightarrow> engine \<Rightarrow> error + engine" where
  "addQueuedNetEvent ev localRecord args e =
     (let q = queued (store e) in
      if q \<noteq> [] then
        (case findIndexReversed q (q_same_id localRecord) of
           Inl err \<Rightarrow> Inl err
         | Inr (Some index) \<Rightarrow>
             if q_event (q ! index) \<noteq> Some ''remove'' then
               Inr (set_queued
                      (q[index := \<lparr> q_eventName = ev,
                                    q_record = Some (case q_record (q ! index) of
                                                       None \<Rightarrow> localRecord
                                                     | Some r \<Rightarrow> assign r localRecord),
                                    q_args = args \<rparr>]) e)
             else if ev \<noteq> ''create'' then
               Inl (BadRequest (''Impossible queue event (remove followed by '' @ ev @ '')''))
             else
               Inr (set_queued
                      (splice_in (index + 1)
                         \<lparr> q_eventName = ev, q_record = Some localRecord, q_args = args \<rparr> q) e)
         | Inr None \<Rightarrow> Inr (addQueuedEvent ev (Some localRecord) args e))
      else Inr (addQueuedEvent ev (Some localRecord) args e))"

text \<open>
  The property \<open>_useUuid\<close> of the Engine, which \<open>_removeQueuedEvent\<close> reads: the
  constructor assigns \<open>useUuid\<close>, and nothing assigns \<open>_useUuid\<close>, so the read gives
  \<open>undefined\<close>.
\<close>

definition u_useUuid :: "engine \<Rightarrow> bool" where
  "u_useUuid e = False"

text \<open>\<open>if (updatedAt) this.store.syncedAt = updatedAt\<close>; \<open>None\<close> is \<open>null\<close> or \<open>undefined\<close>.\<close>

definition set_syncedAt :: "jstime option \<Rightarrow> engine \<Rightarrow> engine" where
  "set_syncedAt upd e =
     (case upd of
        None \<Rightarrow> e
      | Some t \<Rightarrow> if truthy t then e\<lparr> store := (store e)\<lparr> syncedAt := t \<rparr> \<rparr> else e)"

text \<open>
  \<open>_removeQueuedEvent(eventName, localRecord, updatedAt)\<close>. \<open>'id' in localRecord\<close> throws
  when \<open>localRecord\<close> is \<open>undefined\<close>.
\<close>

definition removeQueuedEvent ::
  "string \<Rightarrow> rcd option \<Rightarrow> jstime option \<Rightarrow> engine \<Rightarrow> error + engine" where
  "removeQueuedEvent ev localRecord upd e =
     (case localRecord of
        None \<Rightarrow> (if u_useUuid e then Inl (TypeError ''Cannot read properties of undefined'')
                 else Inl (TypeError ''Cannot use in operator to search for id in undefined''))
      | Some lr \<Rightarrow>
          (let name = (if u_useUuid e then ''uuid'' else idName lr);
               q = queued (store e)
           in case findIndexReversed q
                     (\<lambda>qe. case q_record qe of
                              None \<Rightarrow> Inl (TypeError ''Cannot read properties of undefined'')
                            | Some r \<Rightarrow> Inr (getProp name r = getProp name lr \<and> q_eventName qe = ev)) of
                Inl err \<Rightarrow> Inl err
              | Inr index \<Rightarrow>
                  Inr (set_syncedAt upd
                         (case index of None \<Rightarrow> e | Some i \<Rightarrow> set_queued (splice_out i q) e))))"

text \<open>\<open>_removeQueuedNetEvent(eventName, localRecord, updatedAt)\<close>.\<close>

definition removeQueuedNetEvent ::
  "string \<Rightarrow> rcd \<Rightarrow> jstime option \<Rightarrow> engine \<Rightarrow> error + engine" where
  "removeQueuedNetEvent ev localRecord upd e =
     (let q = queued (store e) in
      if q \<noteq> [] then
        (case findIndexReversed q (q_same_id localRecord) of
           Inl err \<Rightarrow> Inl err
         | Inr index \<Rightarrow>
             (let q1 = (case index of None \<Rightarrow> q | Some i \<Rightarrow> splice_out i q) in
              case findIndexReversed q1 (q_same_id localRecord) of
                Inl err \<Rightarrow> Inl err
              | Inr index2 \<Rightarrow>
                  Inr (set_syncedAt upd
                         (set_queued (case index2 of None \<Rightarrow> q1 | Some i \<Rightarrow> splice_out i q1) e))))
      else Inr (set_syncedAt upd e))"

text \<open>
  \<open>addListeners\<close>, \<open>removeListeners\<close> and \<open>changeSort\<close>. The object they send out has the
  \<open>action\<close> only; \<open>store.last\<close> is not written.
\<close>

definition action_only :: "string \<Rightarrow> last_t" where
  "action_only act = \<lparr> l_source = None, l_action = act, l_eventName = None, l_record = None \<rparr>"

definition notify :: "string \<Rightarrow> engine \<Rightarrow> engine" where
  "notify act e =
     e\<lparr> trace := trace e @ [Emit (records (store e)) (action_only act),
                             Subscriber (records (store e)) (action_only act)] \<rparr>"

definition topics :: "string list" where
  "topics = [''created'', ''updated'', ''patched'', ''removed'']"

definition addListeners :: "engine \<Rightarrow> engine" where
  "addListeners e =
     notify ''add-listeners'' (e\<lparr> attached := attached e @ topics, listening := True \<rparr>)"

definition removeListeners :: "engine \<Rightarrow> engine" where
  "removeListeners e =
     (if listening e then
        notify ''remove-listeners''
          (e\<lparr> attached := foldl (\<lambda>att t. remove1 t att) (attached e) topics,
               listening := False \<rparr>)
      else e)"

definition changeSort :: "(rcd \<Rightarrow> rcd \<Rightarrow> int) option \<Rightarrow> engine \<Rightarrow> engine" where
  "changeSort srt e =
     notify ''change-sort''
       (set_records (sort_opt srt (records (store e))) (e\<lparr> sorter := srt \<rparr>))"

section \<open>Replicator (base-replicator.js)\<close>

text \<open>
  \<open>connect(newQuery)\<close>. The replicator's \<open>_publication\<close> and the Engine's are the same
  \<open>options.publication\<close>. \<open>fetched\<close> is what \<open>snapshot(service, query)\<close> of
  feathers-offline-snapshot resolves to, \<open>None\<close> when it rejects. \<open>this.engine.sorter\<close> is
  read, a property the Engine does not have (its sort function is \<open>_sorter\<close>), so the
  records go to \<open>engine.snapshot\<close> in the filtered order. An exception that ends
  \<open>processQueuedEvents\<close> is caught and logged. The result tells whether the promise of
  \<open>connect\<close> is fulfilled.
\<close>

definition connect :: "'w remote \<Rightarrow> 'w \<Rightarrow> rcd list option \<Rightarrow> engine \<Rightarrow> bool \<times> engine \<times> 'w" where
  "connect remote w fetched e =
     (let e1 = removeListeners e in
      case fetched of
        None \<Rightarrow> (False, e1, w)
      | Some recs \<Rightarrow>
          (let recs' = (case publication e1 of None \<Rightarrow> recs | Some p \<Rightarrow> filter p recs);
               e2 = snapshot recs' e1
           in case processQueuedEvents remote w e2 of
                (err, e3, w', calls) \<Rightarrow> (True, addListeners e3, w')))"

definition disconnect :: "engine \<Rightarrow> engine" where
  "disconnect e = removeListeners e"

text \<open>The getter \<open>connected\<close>.\<close>

definition connected :: "engine \<Rightarrow> bool" where
  "connected e = listening e"

section \<open>Mutator (owndata-mutator.js)\<close>

text \<open>
  The options of the Mutator that its methods use: \<open>matcher\<close> and \<open>sorter\<close>. \<open>toNumber\<close> is
  the conversion of a string to a number that \<open>==\<close> applies between a number and a string
  (\<open>None\<close> when the string reads as no integer).
\<close>

record mutator =
  matcher :: "(string \<times> jsid) list \<Rightarrow> rcd \<Rightarrow> bool"
  m_sorter :: "(string \<times> int) list \<Rightarrow> rcd \<Rightarrow> rcd \<Rightarrow> int"
  toNumber :: "string \<Rightarrow> int option"

text \<open>
  \<open>a == b\<close> on identifier values; \<open>None\<close> is \<open>undefined\<close> or \<open>null\<close>, which \<open>==\<close> does not
  tell apart and which equal nothing else.
\<close>

fun loose_eq :: "(string \<Rightarrow> int option) \<Rightarrow> jsid option \<Rightarrow> jsid option \<Rightarrow> bool" where
  "loose_eq tonum None None = True"
| "loose_eq tonum None (Some b) = False"
| "loose_eq tonum (Some a) None = False"
| "loose_eq tonum (Some (Num x)) (Some (Num y)) = (x = y)"
| "loose_eq tonum (Some (Str x)) (Some (Str y)) = (x = y)"
| "loose_eq tonum (Some (Num x)) (Some (Str t)) = (tonum t = Some x)"
| "loose_eq tonum (Some (Str t)) (Some (Num y)) = (tonum t = Some y)"

definition findIdIndex :: "(string \<Rightarrow> int option) \<Rightarrow> rcd list \<Rightarrow> jsid option \<Rightarrow> nat option" where
  "findIdIndex tonum array i =
     findIndex array (\<lambda>r. loose_eq tonum (rid r) i \<or> loose_eq tonum (r_id r) i)"

definition findUuidIndex :: "(string \<Rightarrow> int option) \<Rightarrow> rcd list \<Rightarrow> jsid option \<Rightarrow> nat option" where
  "findUuidIndex tonum array u = findIndex array (\<lambda>r. loose_eq tonum (uuid r) u)"

definition getId :: "rcd \<Rightarrow> jsid option" where
  "getId r = (if rid r \<noteq> None then rid r else r_id r)"

definition id_arg :: "jsid option \<Rightarrow> arg" where
  "id_arg i = (case i of None \<Rightarrow> ANullish | Some v \<Rightarrow> AId v)"

definition empty_rcd :: rcd where
  "empty_rcd = \<lparr> rid = None, r_id = None, uuid = None, updatedAt = None, other = [] \<rparr>"

text \<open>\<open>shallowClone(obj)\<close>, that is \<open>Object.assign({}, obj)\<close>; of \<open>undefined\<close> it is \<open>{}\<close>.\<close>

definition shallowClone :: "rcd option \<Rightarrow> rcd" where
  "shallowClone r = (case r of None \<Rightarrow> empty_rcd | Some x \<Rightarrow> x)"

text \<open>
  \<open>select\<close> of @feathersjs/adapter-commons, which is not part of this repository: the
  record projected on the fields of \<open>$select\<close> when that is given, with the fields named
  after \<open>params\<close> always kept. Of an \<open>undefined\<close> result it gives \<open>undefined\<close> when there
  is no \<open>$select\<close>, and throws when there is one (it reads the fields of the result).
\<close>

definition pick :: "string list \<Rightarrow> rcd \<Rightarrow> rcd" where
  "pick fs r =
     \<lparr> rid = (if ''id'' \<in> set fs then rid r else None),
       r_id = (if ''_id'' \<in> set fs then r_id r else None),
       uuid = (if ''uuid'' \<in> set fs then uuid r else None),
       updatedAt = (if ''updatedAt'' \<in> set fs then updatedAt r else None),
       other = filter (\<lambda>kv. fst kv \<in> set fs) (other r) \<rparr>"

definition select :: "params \<Rightarrow> string list \<Rightarrow> rcd \<Rightarrow> rcd" where
  "select ps always r = (case p_select ps of None \<Rightarrow> r | Some fs \<Rightarrow> pick (fs @ always) r)"

definition alwaysSelect :: "string list" where
  "alwaysSelect = [''id'', ''_id'', ''uuid'']"

definition select_result :: "params \<Rightarrow> rcd option \<Rightarrow> error + rcd option" where
  "select_result ps res =
     (case res of
        Some r \<Rightarrow> Inr (Some (select ps alwaysSelect r))
      | None \<Rightarrow>
          if p_select ps = None then Inr None
          else Inl (TypeError ''Cannot read properties of undefined''))"

text \<open>
  \<open>_find(params)\<close> on the arrays it works with. An array lives at an address of the heap;
  \<open>ra\<close> is the address of \<open>store.records\<close>. \<open>_.values\<close>, \<open>filter\<close>, \<open>slice\<close> and \<open>map\<close> make a
  new array, \<open>sort\<close> writes into the array it is called on.
\<close>

datatype find_result = Bare "rcd list" | Page nat "nat option" nat "rcd list"

type_synonym heap = "rcd list list"

definition alloc :: "rcd list \<Rightarrow> heap \<Rightarrow> nat \<times> heap" where
  "alloc xs h = (length h, h @ [xs])"

definition find_arrays :: "mutator \<Rightarrow> params \<Rightarrow> nat \<Rightarrow> heap \<Rightarrow> find_result \<times> heap" where
  "find_arrays m ps ra h =
     (let query = (case p_query ps of None \<Rightarrow> [] | Some tq \<Rightarrow> snd tq);
          (vals, h1) = alloc (h ! ra) h;
          (values1, h2) = alloc (filter (matcher m query) (h1 ! vals)) h1;
          total = length (h2 ! values1);
          h3 = (case p_sort ps of
                  None \<Rightarrow> h2
                | Some srt \<Rightarrow> h2[values1 := sort_cmp (m_sorter m srt) (h2 ! values1)]);
          (values2, h4) = (case p_skip ps of
                             None \<Rightarrow> (values1, h3)
                           | Some k \<Rightarrow> alloc (drop k (h3 ! values1)) h3);
          (values3, h5) = (case p_limit ps of
                             None \<Rightarrow> (values2, h4)
                           | Some n \<Rightarrow> alloc (take n (h4 ! values2)) h4);
          (data, h6) = alloc (map (select ps []) (h5 ! values3)) h5
      in (if p_paginate ps
          then Page total (p_limit ps) (case p_skip ps of None \<Rightarrow> 0 | Some k \<Rightarrow> k) (h6 ! data)
          else Bare (h6 ! data), h6))"

text \<open>
  \<open>_find(params)\<close> on the Engine's store: the record array is put at address 0, and is
  read back from there afterwards. \<open>_find\<close> calls no method of the Engine.
\<close>

definition m_find :: "mutator \<Rightarrow> params \<Rightarrow> engine \<Rightarrow> find_result \<times> engine" where
  "m_find m ps e =
     (case find_arrays m ps 0 [records (store e)] of
        (res, h) \<Rightarrow> (res, set_records (h ! 0) e))"

text \<open>
  The methods below give the value their promise settles with, \<open>Inl\<close> for a rejection,
  and the Engine when they return; the remote call they start completes later. The
  identifier \<open>None\<close> is \<open>undefined\<close> (and for \<open>_get\<close> also \<open>null\<close>).
\<close>

definition not_connected :: error where
  "not_connected = BadRequest ''Replicator not connected to remote. (owndata)''"

definition m_get :: "mutator \<Rightarrow> jsid option \<Rightarrow> params \<Rightarrow> engine \<Rightarrow> (error + rcd option) \<times> engine" where
  "m_get m u ps e =
     (case findUuidIndex (toNumber m) (records (store e)) u of
        None \<Rightarrow> (Inl (NotFound ''No record found for uuid'' u), e)
      | Some index \<Rightarrow> (Inr (Some (select ps alwaysSelect (records (store e) ! index))), e))"

text \<open>
  \<open>_create(data, params)\<close> for \<open>data\<close> that is not an array. \<open>minted\<close> is what
  \<open>this._getUuid()\<close> returns, a string.
\<close>

definition m_create ::
  "mutator \<Rightarrow> int \<Rightarrow> string \<Rightarrow> rcd \<Rightarrow> params \<Rightarrow> engine \<Rightarrow> (error + rcd option) \<times> engine" where
  "m_create m now minted data0 ps e =
     (if \<not> connected e then (Inl not_connected, e)
      else
        (let data = (if uuid data0 = None then data0\<lparr> uuid := Some (Str minted) \<rparr> else data0) in
         if findUuidIndex (toNumber m) (records (store e)) (uuid data) \<noteq> None
         then (Inl (BadRequest ''Optimistic create requires unique uuid. (owndata)''), e)
         else
           (case mutateStore now ''created'' data 1 e of
              (newData, e1) \<Rightarrow>
                (select_result ps newData,
                 addQueuedEvent ''create'' newData
                   [AData (shallowClone newData), AParams ps] e1))))"

text \<open>
  \<open>_update(id, data, params)\<close>. When \<open>_mutateStore\<close> returns \<open>undefined\<close>,
  \<open>getId(newData)\<close> throws.
\<close>

definition m_update ::
  "mutator \<Rightarrow> int \<Rightarrow> jsid option \<Rightarrow> rcd \<Rightarrow> params \<Rightarrow> engine \<Rightarrow> (error + rcd option) \<times> engine" where
  "m_update m now i data0 ps e =
     (if \<not> connected e then (Inl not_connected, e)
      else if uuid data0 = None
        then (Inl (BadRequest ''Optimistic mutation requires uuid. (owndata)''), e)
      else
        (case findIdIndex (toNumber m) (records (store e)) i of
           None \<Rightarrow> (Inl (NotFound ''No record found for id'' i), e)
         | Some index \<Rightarrow>
             (let beforeRecord = shallowClone (Some (records (store e) ! index));
                  data = data0\<lparr> uuid := uuid beforeRecord \<rparr>
              in case mutateStore now ''updated'' data 1 e of
                   (None, e1) \<Rightarrow>
                     (Inl (TypeError ''Cannot use in operator to search for id in undefined''), e1)
                 | (Some newData, e1) \<Rightarrow>
                     (Inr (Some (select ps alwaysSelect newData)),
                      addQueuedEvent ''update'' (Some newData)
                        [id_arg (getId newData), AData (shallowClone (Some newData)), AParams ps]
                        e1))))"

text \<open>\<open>_patch(id, data, params)\<close> for an \<open>id\<close> that is not \<open>null\<close>.\<close>

definition m_patch ::
  "mutator \<Rightarrow> int \<Rightarrow> jsid option \<Rightarrow> rcd \<Rightarrow> params \<Rightarrow> engine \<Rightarrow> (error + rcd option) \<times> engine" where
  "m_patch m now i data ps e =
     (if \<not> connected e then (Inl not_connected, e)
      else
        (case findIdIndex (toNumber m) (records (store e)) i of
           None \<Rightarrow> (Inl (NotFound ''No record found for id'' i), e)
         | Some index \<Rightarrow>
             (let beforeRecord = shallowClone (Some (records (store e) ! index));
                  afterRecord = assign beforeRecord data
              in case mutateStore now ''patched'' afterRecord 1 e of
                   (None, e1) \<Rightarrow>
                     (Inl (TypeError ''Cannot use in operator to search for id in undefined''), e1)
                 | (Some newData, e1) \<Rightarrow>
                     (Inr (Some (select ps alwaysSelect newData)),
                      addQueuedEvent ''patch'' (Some newData)
                        [id_arg (getId newData), AData (shallowClone (Some newData)), AParams ps]
                        e1))))"

text \<open>\<open>_remove(id, params)\<close> for an \<open>id\<close> that is not \<open>null\<close>.\<close>

definition m_remove ::
  "mutator \<Rightarrow> int \<Rightarrow> jsid option \<Rightarrow> params \<Rightarrow> engine \<Rightarrow> (error + rcd option) \<times> engine" where
  "m_remove m now i ps e =
     (if \<not> connected e then (Inl not_connected, e)
      else
        (case findIdIndex (toNumber m) (records (store e)) i of
           None \<Rightarrow> (Inl (NotFound ''No record found for id'' i), e)
         | Some index \<Rightarrow>
             (let beforeRecord = shallowClone (Some (records (store e) ! index))
              in case mutateStore now ''removed'' beforeRecord 1 e of
                   (newData, e1) \<Rightarrow>
                     (select_result ps newData,
                      addQueuedEvent ''remove'' (Some beforeRecord) [id_arg i, AParams ps] e1))))"

section \<open>Sequences of operations\<close>

text \<open>
  The operations on an Engine, and one step of a run: the Engine and the remote side
  after the operation. An operation that throws leaves the Engine as it is at the throw.
\<close>

datatype op =
    Snapshot "rcd list"
  | ProcessQueuedEvents
  | AddQueuedEvent string "rcd option" "arg list"
  | AddQueuedNetEvent string rcd "arg list"
  | RemoveQueuedEvent string "rcd option" "jstime option"
  | RemoveQueuedNetEvent string rcd "jstime option"
  | AddListeners
  | RemoveListeners
  | MutateStore int string rcd int
  | ChangeSort "(rcd \<Rightarrow> rcd \<Rightarrow> int) option"
  | Connect "rcd list option"
  | Disconnect

fun step :: "'w remote \<Rightarrow> op \<Rightarrow> engine \<times> 'w \<Rightarrow> engine \<times> 'w" where
  "step remote (Snapshot recs) (e, w) = (snapshot recs e, w)"
| "step remote ProcessQueuedEvents (e, w) =
     (case processQueuedEvents remote w e of (err, e', w', calls) \<Rightarrow> (e', w'))"
| "step remote (AddQueuedEvent ev r args) (e, w) = (addQueuedEvent ev r args e, w)"
| "step remote (AddQueuedNetEvent ev r args) (e, w) =
     (case addQueuedNetEvent ev r args e of Inl err \<Rightarrow> (e, w) | Inr e' \<Rightarrow> (e', w))"
| "step remote (RemoveQueuedEvent ev r upd) (e, w) =
     (case removeQueuedEvent ev r upd e of Inl err \<Rightarrow> (e, w) | Inr e' \<Rightarrow> (e', w))"
| "step remote (RemoveQueuedNetEvent ev r upd) (e, w) =
     (case removeQueuedNetEvent ev r upd e of Inl err \<Rightarrow> (e, w) | Inr e' \<Rightarrow> (e', w))"
| "step remote AddListeners (e, w) = (addListeners e, w)"
| "step remote RemoveListeners (e, w) = (removeListeners e, w)"
| "step remote (MutateStore now ev r source) (e, w) = (snd (mutateStore now ev r source e), w)"
| "step remote (ChangeSort srt) (e, w) = (changeSort srt e, w)"
| "step remote (Connect fetched) (e, w) =
     (case connect remote w fetched e of (ok, e', w') \<Rightarrow> (e', w'))"
| "step remote Disconnect (e, w) = (disconnect e, w)"

fun run :: "'w remote \<Rightarrow> op list \<Rightarrow> engine \<times> 'w \<Rightarrow> engine \<times> 'w" where
  "run remote [] s = s"
| "run remote (x # xs) s = run remote xs (step remote x s)"

section \<open>Conditions used in the statements\<close>

text \<open>
  \<open>no_earlier a b\<close>: the timestamps \<open>a\<close> and \<open>b\<close> are of the same kind, two strings or two
  \<open>Date\<close> objects, and \<open>a\<close> is at most \<open>b\<close>.
\<close>

fun no_earlier :: "jstime \<Rightarrow> jstime \<Rightarrow> bool" where
  "no_earlier (Iso a) (Iso b) = (a \<le> b)"
| "no_earlier (Date a) (Date b) = (a \<le> b)"
| "no_earlier (Iso a) (Date b) = False"
| "no_earlier (Date a) (Iso b) = False"

text \<open>
  \<open>iso_times recs\<close>: the \<open>updatedAt\<close> of the records that are strings. \<open>greatest recs\<close>: the
  greatest of these and \<open>DOB\<close>.
\<close>

definition iso_times :: "rcd list \<Rightarrow> string list" where
  "iso_times recs = concat (map (\<lambda>r. case updatedAt r of Some (Iso t) \<Rightarrow> [t] | _ \<Rightarrow> []) recs)"

definition greatest :: "rcd list \<Rightarrow> jstime" where
  "greatest recs = Iso (Max (set (DOB # iso_times recs)))"

definition published :: "engine \<Rightarrow> rcd list \<Rightarrow> rcd list" where
  "published e recs = (case publication e of None \<Rightarrow> recs | Some p \<Rightarrow> filter p recs)"

text \<open>
  \<open>watermark_after x e\<close>: the \<open>syncedAt\<close> that the operation \<open>x\<close> on the Engine \<open>e\<close> is
  stated to leave. A snapshot, direct or in \<open>connect\<close> after the
  publication filter, leaves the greatest string \<open>updatedAt\<close> of its records, or \<open>DOB\<close>; a
  removal from the queue that does not throw and is given a truthy \<open>updatedAt\<close> leaves
  that; every other operation leaves what was there.
\<close>

definition returns :: "error + 'a \<Rightarrow> bool" where
  "returns res = (case res of Inl err \<Rightarrow> False | Inr v \<Rightarrow> True)"

fun watermark_after :: "op \<Rightarrow> engine \<Rightarrow> jstime" where
  "watermark_after (Snapshot recs) e = greatest recs"
| "watermark_after (Connect (Some recs)) e = greatest (published e recs)"
| "watermark_after (RemoveQueuedEvent ev r (Some t)) e =
     (if truthy t \<and> returns (removeQueuedEvent ev r (Some t) e) then t else syncedAt (store e))"
| "watermark_after (RemoveQueuedNetEvent ev r (Some t)) e =
     (if truthy t \<and> returns (removeQueuedNetEvent ev r (Some t) e) then t else syncedAt (store e))"
| "watermark_after x e = syncedAt (store e)"

text \<open>
  \<open>covers old recs\<close>: the watermark \<open>old\<close> is a string, and is at most \<open>DOB\<close> or at most the
  string \<open>updatedAt\<close> of one of the records. \<open>keeps_watermark x e\<close>: the operation \<open>x\<close> is a
  snapshot (directly or in \<open>connect\<close>, after the publication filter) of records that
  cover the current \<open>syncedAt\<close>, or a removal from the queue with no \<open>updatedAt\<close>, an empty
  one or one that is no earlier than the current \<open>syncedAt\<close>, or any other operation.
\<close>

definition covers :: "jstime \<Rightarrow> rcd list \<Rightarrow> bool" where
  "covers old recs =
     (case old of
        Iso a \<Rightarrow> a \<le> DOB \<or> list_ex (\<lambda>t. a \<le> t) (iso_times recs)
      | Date d \<Rightarrow> False)"

fun keeps_watermark :: "op \<Rightarrow> engine \<Rightarrow> bool" where
  "keeps_watermark (Snapshot recs) e = covers (syncedAt (store e)) recs"
| "keeps_watermark (Connect (Some recs)) e = covers (syncedAt (store e)) (published e recs)"
| "keeps_watermark (RemoveQueuedEvent ev r (Some t)) e =
     (t = Iso [] \<or> no_earlier (syncedAt (store e)) t)"
| "keeps_watermark (RemoveQueuedNetEvent ev r (Some t)) e =
     (t = Iso [] \<or> no_earlier (syncedAt (store e)) t)"
| "keeps_watermark x e = True"

fun keeps_watermark_run :: "'w remote \<Rightarrow> op list \<Rightarrow> engine \<times> 'w \<Rightarrow> bool" where
  "keeps_watermark_run remote [] s = True"
| "keeps_watermark_run remote (x # xs) s =
     (keeps_watermark x (fst s) \<and> keeps_watermark_run remote xs (step remote x s))"

text \<open>
  \<open>strip_entry el\<close> is the entry \<open>el\<close> once \<open>processQueuedEvents\<close> has deleted \<open>_fail\<close> and
  \<open>_timeout\<close> from the queries of its arguments, \<open>call_of el\<close> the call it then makes
  (for an entry with a \<open>null\<close> or \<open>undefined\<close> argument, which is not called, \<open>call_of\<close>
  has no arguments).
  \<open>has_args el\<close>: no argument of \<open>el\<close> is \<open>null\<close> or \<open>undefined\<close>. \<open>flagless a\<close>: the
  argument \<open>a\<close> has no \<open>query\<close> with one of the two flags. \<open>touched_by q\<close>: the \<open>query\<close>
  objects of the arguments of the entries \<open>q\<close>.
\<close>

definition strip_entry :: "qentry \<Rightarrow> qentry" where
  "strip_entry el = (case strip_args (q_args el) of None \<Rightarrow> el | Some args' \<Rightarrow> el\<lparr> q_args := args' \<rparr>)"

definition call_of :: "qentry \<Rightarrow> string \<times> arg list" where
  "call_of el =
     (q_eventName el, take 3 (case strip_args (q_args el) of None \<Rightarrow> [] | Some args' \<Rightarrow> args'))"

definition has_args :: "qentry \<Rightarrow> bool" where
  "has_args el = (strip_args (q_args el) \<noteq> None)"

fun flagless :: "arg \<Rightarrow> bool" where
  "flagless ANullish = False"
| "flagless (AId i) = True"
| "flagless (AData r) = True"
| "flagless (AParams p) =
     (case p_query p of
        None \<Rightarrow> True
      | Some tq \<Rightarrow> list_all (\<lambda>kv. fst kv \<noteq> ''_fail'' \<and> fst kv \<noteq> ''_timeout'') (snd tq))"

definition touched_by :: "qentry list \<Rightarrow> nat list" where
  "touched_by q = concat (map (\<lambda>el. touched (q_args el)) q)"

text \<open>
  \<open>answers remote w cs\<close>: what the remote service in the state \<open>w\<close> answers to the calls
  \<open>cs\<close> made one after the other, and its state after them.
\<close>

fun answers :: "'w remote \<Rightarrow> 'w \<Rightarrow> (string \<times> arg list) list \<Rightarrow> bool list \<times> 'w" where
  "answers remote w [] = ([], w)"
| "answers remote w (c # cs) =
     (case remote w (fst c) (snd c) of
        None \<Rightarrow> ([], w)
      | Some (ok, w1) \<Rightarrow> (case answers remote w1 cs of (oks, w2) \<Rightarrow> (ok # oks, w2)))"

text \<open>
  \<open>drained remote w q q' w' calls\<close>: the calls are those of the first \<open>k\<close> entries of \<open>q\<close>,
  in the order of \<open>q\<close>, their outcomes are what the remote service, from the state \<open>w\<close>
  on, answers to them, and \<open>w'\<close> is its state after them; either all of \<open>q\<close> was called,
  every answer is a success and \<open>q'\<close> is empty, or the last call, of entry \<open>k - 1\<close>, is
  the only one that failed, and \<open>q'\<close> is that entry followed by the entries after it,
  with the two flags deleted from every \<open>query\<close> object of an entry that was called.
\<close>

definition drained ::
  "'w remote \<Rightarrow> 'w \<Rightarrow> qentry list \<Rightarrow> qentry list \<Rightarrow> 'w \<Rightarrow> call list \<Rightarrow> bool" where
  "drained remote w q q' w' calls =
     (\<exists>k \<le> length q.
        map (\<lambda>c. (fst c, fst (snd c))) calls = map call_of (take k q) \<and>
        answers remote w (map call_of (take k q)) = (map (\<lambda>c. snd (snd c)) calls, w') \<and>
        ((k = length q \<and> q' = [] \<and> map (\<lambda>c. snd (snd c)) calls = replicate k True) \<or>
         (0 < k \<and> map (\<lambda>c. snd (snd c)) calls = replicate (k - 1) True @ [False] \<and>
          q' = map (strip_entry_shared (touched_by (take k q))) (drop (k - 1) q))))"

text \<open>
  \<open>all_published e\<close>: every record of the store passes the publication predicate of the
  Engine. \<open>stamp_stable e\<close>: a record that passes the predicate still passes it once
  \<open>_mutateStore\<close> has written the time into its \<open>updatedAt\<close>. \<open>publishes_only e x\<close>: if the
  operation \<open>x\<close> is a direct call of \<open>snapshot\<close>, its records pass the predicate.
\<close>

definition all_published :: "engine \<Rightarrow> bool" where
  "all_published e = list_all (passes e) (records (store e))"

definition stamp_stable :: "engine \<Rightarrow> bool" where
  "stamp_stable e = (\<forall>r now. passes e r \<longrightarrow> passes e (r\<lparr> updatedAt := Some (Date now) \<rparr>))"

fun publishes_only :: "engine \<Rightarrow> op \<Rightarrow> bool" where
  "publishes_only e (Snapshot recs) = list_all (passes e) recs"
| "publishes_only e x = True"

section \<open>Example values\<close>

definition rec1 :: rcd where
  "rec1 = \<lparr> rid = Some (Num 1), r_id = None, uuid = Some (Num 1001), updatedAt = None,
            other = [(''order'', Num 1)] \<rparr>"

definition rec2 :: rcd where
  "rec2 = \<lparr> rid = Some (Num 2), r_id = None, uuid = Some (Num 1002), updatedAt = None,
            other = [(''order'', Num 2)] \<rparr>"

definition engine0 :: engine where
  "engine0 = new_engine None None True True"

definition engine12 :: engine where
  "engine12 = set_records [rec1, rec2] engine0"

text \<open>
  A publication of the records not updated since 2021, a publication of the records of
  order at most 3, and Engines with them; a record last updated in 2020.
\<close>

definition before_2021 :: "rcd \<Rightarrow> bool" where
  "before_2021 r =
     (case updatedAt r of
        None \<Rightarrow> True
      | Some (Iso t) \<Rightarrow> t < ''2021''
      | Some (Date d) \<Rightarrow> d < 1609459200000)"

definition order_le_3 :: "rcd \<Rightarrow> bool" where
  "order_le_3 r = (case map_of (other r) ''order'' of Some (Num n) \<Rightarrow> n \<le> 3 | _ \<Rightarrow> False)"

definition engine_2021 :: engine where
  "engine_2021 = new_engine (Some before_2021) None True True"

definition engine_le_3 :: engine where
  "engine_le_3 = new_engine (Some order_le_3) None True True"

definition rec2020 :: rcd where
  "rec2020 = rec1\<lparr> updatedAt := Some (Iso ''2020-12-31T00:00:00.000Z'') \<rparr>"

definition rec99 :: rcd where
  "rec99 = \<lparr> rid = Some (Num 99), r_id = None, uuid = None, updatedAt = None,
             other = [(''order'', Num 99)] \<rparr>"

definition params0 :: params where
  "params0 = \<lparr> p_query = None, p_select = None, p_sort = None, p_skip = None, p_limit = None,
               p_paginate = False \<rparr>"

text \<open>A record updated in 2021, and a remote service without methods.\<close>

definition rec2021 :: rcd where
  "rec2021 = rec1\<lparr> updatedAt := Some (Iso ''2021-01-01T00:00:00.000Z'') \<rparr>"

text \<open>
  The same record with a \<open>Date\<close> of 2023 as its \<open>updatedAt\<close>, and the time values of a
  day in 2022 and of that day in 2023.
\<close>

definition day2022 :: int where
  "day2022 = 1654041600000"

definition day2023 :: int where
  "day2023 = 1685577600000"

definition rec2023 :: rcd where
  "rec2023 = rec1\<lparr> updatedAt := Some (Date day2023) \<rparr>"






definition no_remote :: "unit remote" where
  "no_remote w name args = None"

text \<open>
  A remote service on which every call is rejected, one on which \<open>create\<close> succeeds and
  every other call is rejected, a params object whose query carries the two flags, and
  the same object once they are deleted.
\<close>

definition rejecting :: "unit remote" where
  "rejecting w name args = Some (False, w)"

definition create_only :: "unit remote" where
  "create_only w name args = Some (name = ''create'', w)"

definition params_fail :: params where
  "params_fail = params0\<lparr> p_query := Some (7, [(''_fail'', Num 1), (''_timeout'', Num 1)]) \<rparr>"

definition params_plain :: params where
  "params_plain = params0\<lparr> p_query := Some (7, []) \<rparr>"

text \<open>A queued \<open>remove\<close> of record 1, then a net event for the same record.\<close>

definition queued_remove1 :: qentry where
  "queued_remove1 =
     \<lparr> q_eventName = ''remove'', q_record = Some rec1, q_args = [AId (Num 1), AParams params0] \<rparr>"

text \<open>Two records created offline, which have a \<open>uuid\<close> and no server identifier yet.\<close>

definition recA :: rcd where
  "recA = \<lparr> rid = None, r_id = None, uuid = Some (Str ''a''), updatedAt = None, other = [] \<rparr>"

definition recB :: rcd where
  "recB = \<lparr> rid = None, r_id = None, uuid = Some (Str ''b''), updatedAt = None, other = [] \<rparr>"

definition queued_create :: "rcd \<Rightarrow> qentry" where
  "queued_create r =
     \<lparr> q_eventName = ''create'', q_record = Some r, q_args = [AData r, AParams params0] \<rparr>"

text \<open>A Mutator that matches every record, and the two Engines above once listening.\<close>

definition mutator0 :: mutator where
  "mutator0 = \<lparr> matcher = (\<lambda>q r. True), m_sorter = (\<lambda>srt a b. 0), toNumber = (\<lambda>t. None) \<rparr>"

definition online12 :: engine where
  "online12 = addListeners engine12"

definition online_le_3 :: engine where
  "online_le_3 = addListeners engine_le_3"

text \<open>
  Three entries queued with one and the same params object, which carries the flags: a
  \<open>create\<close>, a \<open>remove\<close> and a \<open>create\<close>.
\<close>

definition shared_create :: "params \<Rightarrow> rcd \<Rightarrow> qentry" where
  "shared_create ps r =
     \<lparr> q_eventName = ''create'', q_record = Some r, q_args = [AData r, AParams ps] \<rparr>"

definition shared_remove :: "params \<Rightarrow> qentry" where
  "shared_remove ps =
     \<lparr> q_eventName = ''remove'', q_record = Some rec1, q_args = [AId (Num 1), AParams ps] \<rparr>"

definition engine_shared :: engine where
  "engine_shared =
     set_queued [shared_create params_fail recA, shared_remove params_fail,
                 shared_create params_fail recB] engine0"

section \<open>Facts about the helpers\<close>

lemma findIndex_None: "findIndex xs p = None \<longleftrightarrow> (\<forall>x \<in> set xs. \<not> p x)"
  by (induction xs) auto

lemma findIndex_Some:
  "findIndex xs p = Some i \<Longrightarrow> i < length xs \<and> p (xs ! i) \<and> (\<forall>j < i. \<not> p (xs ! j))"
proof (induction xs arbitrary: i)
  case Nil
  then show ?case by simp
next
  case (Cons x xs)
  show ?case
  proof (cases "p x")
    case True
    with Cons.prems show ?thesis by simp
  next
    case False
    with Cons.prems obtain k where k: "findIndex xs p = Some k" "i = Suc k"
      by auto
    from Cons.IH [OF k(1)] False k(2) show ?thesis
      by (auto simp: less_Suc_eq_0_disj)
  qed
qed

lemma findIndex_present: "(findIndex xs p \<noteq> None) = (\<exists>x \<in> set xs. p x)"
  by (simp add: findIndex_None)

lemma same_id_fields:
  "same_id r = (\<lambda>x. if rid r \<noteq> None then rid x = rid r else r_id x = r_id r)"
  by (rule ext) (simp add: same_id_def idName_def getProp_def)

lemma find_arrays_frame:
  "a < length h \<Longrightarrow> snd (find_arrays m ps ra h) ! a = h ! a"
  by (simp add: find_arrays_def alloc_def Let_def nth_append split: option.split prod.split)

lemma foldl_latest:
  "foldl (\<lambda>u r. case updatedAt r of None \<Rightarrow> u | Some t \<Rightarrow> if js_gt t u then t else u) (Iso u) recs
     = Iso (Max (set (u # iso_times recs)))"
proof (induction recs arbitrary: u)
  case Nil
  show ?case by (simp add: iso_times_def)
next
  case (Cons r recs)
  let ?f = "\<lambda>u r. case updatedAt r of None \<Rightarrow> u | Some t \<Rightarrow> if js_gt t u then t else u"
  show ?case
  proof (cases "updatedAt r")
    case None
    then have "iso_times (r # recs) = iso_times recs" by (simp add: iso_times_def)
    with None Cons.IH [of u] show ?thesis by simp
  next
    case (Some t)
    show ?thesis
    proof (cases t)
      case (Date d)
      with Some have "iso_times (r # recs) = iso_times recs" by (simp add: iso_times_def)
      with Some Date Cons.IH [of u] show ?thesis by simp
    next
      case (Iso a)
      with Some have i: "iso_times (r # recs) = a # iso_times recs" by (simp add: iso_times_def)
      have f: "?f (Iso u) r = Iso (max u a)"
        using Some Iso by (auto simp: max_def)
      have "Max (set (max u a # iso_times recs)) = Max (set (u # a # iso_times recs))"
      proof (cases "iso_times recs = []")
        case True
        then show ?thesis by (simp add: max.commute)
      next
        case False
        then show ?thesis by (simp add: max.assoc)
      qed
      with f i Cons.IH [of "max u a"] show ?thesis by simp
    qed
  qed
qed

lemma latest_greatest: "latest recs = greatest recs"
  by (simp add: latest_def greatest_def foldl_latest)

lemma no_earlier_refl: "no_earlier a a"
  by (cases a) simp_all

lemma no_earlier_trans: "no_earlier a b \<Longrightarrow> no_earlier b c \<Longrightarrow> no_earlier a c"
  by (cases a; cases b; cases c) auto

lemma covers_greatest: "covers old recs \<Longrightarrow> no_earlier old (greatest recs)"
proof (cases old)
  case (Date d)
  assume "covers old recs"
  with Date show ?thesis by (simp add: covers_def)
next
  case (Iso a)
  assume "covers old recs"
  with Iso have "a \<le> DOB \<or> (\<exists>t \<in> set (iso_times recs). a \<le> t)"
    by (simp add: covers_def list_ex_iff)
  then have "a \<le> Max (set (DOB # iso_times recs))"
  proof
    assume "a \<le> DOB"
    also have "DOB \<le> Max (set (DOB # iso_times recs))" by (rule Max_ge) simp_all
    finally show ?thesis .
  next
    assume "\<exists>t \<in> set (iso_times recs). a \<le> t"
    then obtain t where t: "t \<in> set (iso_times recs)" "a \<le> t" by blast
    from t(1) have "t \<le> Max (set (DOB # iso_times recs))" by (intro Max_ge) simp_all
    with t(2) show ?thesis by (rule order_trans)
  qed
  with Iso show ?thesis by (simp add: greatest_def)
qed

lemma syncedAt_snapshot [simp]: "syncedAt (store (snapshot recs e)) = latest recs"
  by (simp add: snapshot_def Let_def)

lemma syncedAt_set_queued [simp]: "syncedAt (store (set_queued q e)) = syncedAt (store e)"
  by (simp add: set_queued_def)

lemma syncedAt_set_records [simp]: "syncedAt (store (set_records q e)) = syncedAt (store e)"
  by (simp add: set_records_def)

lemma syncedAt_notify [simp]: "syncedAt (store (notify a e)) = syncedAt (store e)"
  by (simp add: notify_def)

lemma syncedAt_broadcast [simp]: "syncedAt (store (broadcast s ev r a e)) = syncedAt (store e)"
  by (simp add: broadcast_def Let_def)

lemma syncedAt_mutateStore [simp]:
  "syncedAt (store (snd (mutateStore now ev r source e))) = syncedAt (store e)"
  by (simp add: mutateStore_def Let_def split: option.split)

lemma syncedAt_processQueuedEvents [simp]:
  "syncedAt (store (fst (snd (processQueuedEvents remote w e)))) = syncedAt (store e)"
  by (simp add: processQueuedEvents_def case_prod_beta)

lemma syncedAt_addListeners [simp]: "syncedAt (store (addListeners e)) = syncedAt (store e)"
  by (simp add: addListeners_def)

lemma syncedAt_removeListeners [simp]: "syncedAt (store (removeListeners e)) = syncedAt (store e)"
  by (simp add: removeListeners_def)

lemma syncedAt_changeSort [simp]: "syncedAt (store (changeSort srt e)) = syncedAt (store e)"
  by (simp add: changeSort_def)

lemma syncedAt_addQueuedEvent [simp]:
  "syncedAt (store (addQueuedEvent ev r args e)) = syncedAt (store e)"
  by (simp add: addQueuedEvent_def)

lemma syncedAt_addQueuedNetEvent:
  "addQueuedNetEvent ev r args e = Inr e' \<Longrightarrow> syncedAt (store e') = syncedAt (store e)"
  by (auto simp add: addQueuedNetEvent_def Let_def split: if_splits sum.splits option.splits)

lemma syncedAt_set_syncedAt:
  "syncedAt (store (set_syncedAt upd e)) =
     (case upd of None \<Rightarrow> syncedAt (store e) | Some t \<Rightarrow> if truthy t then t else syncedAt (store e))"
  by (simp add: set_syncedAt_def split: option.split)

lemma syncedAt_removeQueuedEvent:
  "removeQueuedEvent ev r upd e = Inr e' \<Longrightarrow>
   syncedAt (store e') =
     (case upd of None \<Rightarrow> syncedAt (store e) | Some t \<Rightarrow> if truthy t then t else syncedAt (store e))"
  by (auto simp add: removeQueuedEvent_def Let_def syncedAt_set_syncedAt
      split: if_splits sum.splits option.splits)

lemma syncedAt_removeQueuedNetEvent:
  "removeQueuedNetEvent ev r upd e = Inr e' \<Longrightarrow>
   syncedAt (store e') =
     (case upd of None \<Rightarrow> syncedAt (store e) | Some t \<Rightarrow> if truthy t then t else syncedAt (store e))"
  by (auto simp add: removeQueuedNetEvent_def Let_def syncedAt_set_syncedAt
      split: if_splits sum.splits option.splits)

lemma publication_removeListeners [simp]: "publication (removeListeners e) = publication e"
  by (simp add: removeListeners_def notify_def)

lemma syncedAt_connect:
  "syncedAt (store (fst (snd (connect remote w fetched e)))) =
     (case fetched of None \<Rightarrow> syncedAt (store e) | Some recs \<Rightarrow> latest (published e recs))"
  by (simp add: connect_def Let_def published_def case_prod_beta split: option.split)

lemma syncedAt_step:
  "syncedAt (store (fst (step remote x (e, w)))) = watermark_after x e"
proof (cases x)
  case ProcessQueuedEvents
  have "syncedAt (store (fst (snd (processQueuedEvents remote w e)))) = syncedAt (store e)"
    by simp
  then show ?thesis using ProcessQueuedEvents by (simp add: case_prod_beta)
next
  case (AddQueuedNetEvent ev r args)
  then show ?thesis
    by (auto split: sum.split dest: syncedAt_addQueuedNetEvent)
next
  case (RemoveQueuedEvent ev r upd)
  then show ?thesis
    by (cases upd) (auto simp: returns_def split: sum.split dest!: syncedAt_removeQueuedEvent)
next
  case (RemoveQueuedNetEvent ev r upd)
  then show ?thesis
    by (cases upd) (auto simp: returns_def split: sum.split dest!: syncedAt_removeQueuedNetEvent)
next
  case (Connect fetched)
  then show ?thesis
    using syncedAt_connect [of remote w fetched e]
    by (cases fetched) (simp_all add: case_prod_beta latest_greatest)
qed (simp_all add: disconnect_def latest_greatest)

lemma watermark_after_keeps:
  assumes "keeps_watermark x e"
  shows "no_earlier (syncedAt (store e)) (watermark_after x e)"
proof (cases x)
  case (Snapshot recs)
  with assms show ?thesis by (simp add: covers_greatest)
next
  case (RemoveQueuedEvent ev r upd)
  with assms show ?thesis
    by (cases upd) (auto simp: no_earlier_refl truthy_def)
next
  case (RemoveQueuedNetEvent ev r upd)
  with assms show ?thesis
    by (cases upd) (auto simp: no_earlier_refl truthy_def)
next
  case (Connect fetched)
  with assms show ?thesis
    by (cases fetched) (simp_all add: covers_greatest no_earlier_refl)
qed (simp_all add: no_earlier_refl)

lemma run_keeps_watermark:
  "keeps_watermark_run remote xs (e, w) \<Longrightarrow>
     no_earlier (syncedAt (store e)) (syncedAt (store (fst (run remote xs (e, w)))))"
proof (induction xs arbitrary: e w)
  case Nil
  show ?case by (simp add: no_earlier_refl)
next
  case (Cons x xs)
  obtain e' w' where s: "step remote x (e, w) = (e', w')" by (cases "step remote x (e, w)")
  from Cons.prems have k: "keeps_watermark x e" and r: "keeps_watermark_run remote xs (e', w')"
    using s by simp_all
  have "syncedAt (store e') = watermark_after x e"
    using syncedAt_step [of remote x e w] s by simp
  with watermark_after_keeps [OF k] have "no_earlier (syncedAt (store e)) (syncedAt (store e'))"
    by simp
  moreover have "no_earlier (syncedAt (store e')) (syncedAt (store (fst (run remote xs (e', w')))))"
    by (rule Cons.IH [OF r])
  ultimately show ?case using s by (auto intro: no_earlier_trans)
qed

lemma strip_query_idem [simp]: "strip_query (strip_query q) = strip_query q"
  by (simp add: strip_query_def)

lemma strip_arg_shared [simp]: "strip_arg (strip_shared ts a) = strip_arg a"
  by (cases a) (auto split: option.split)

lemma strip_args_shared [simp]: "strip_args (map (strip_shared ts) as) = strip_args as"
  by (induction as) (simp_all cong: option.case_cong)

lemma touched_shared [simp]: "touched (map (strip_shared ts) as) = touched as"
proof (induction as)
  case Nil
  show ?case by simp
next
  case (Cons a as)
  then show ?case by (cases a) (auto split: option.split)
qed

lemma strip_shared_twice [simp]:
  "strip_shared ts' (strip_shared ts a) = strip_shared (ts @ ts') a"
  by (cases a) (auto split: option.split)

lemma strip_entry_shared_twice [simp]:
  "strip_entry_shared ts' (strip_entry_shared ts el) = strip_entry_shared (ts @ ts') el"
  by (simp add: strip_entry_shared_def)

lemma strip_args_touched:
  "strip_args as = Some as' \<Longrightarrow> set (touched as) \<subseteq> set ts \<Longrightarrow> map (strip_shared ts) as = as'"
proof (induction as arbitrary: as')
  case Nil
  then show ?case by simp
next
  case (Cons a as)
  from Cons.prems(1) obtain a' bs where a': "strip_arg a = Some a'"
    and bs: "strip_args as = Some bs" and as': "as' = a' # bs"
    by (auto split: option.splits)
  from a' Cons.prems(2) have t: "set (touched as) \<subseteq> set ts"
    by (cases a) (auto split: option.splits)
  from a' Cons.prems(2) have "strip_shared ts a = a'"
    by (cases a) (auto split: option.splits)
  with Cons.IH [OF bs t] as' show ?case by simp
qed

lemma strip_entry_shared_own:
  "strip_args (q_args el) = Some args' \<Longrightarrow>
     strip_entry_shared (touched (q_args el)) el = el\<lparr> q_args := args' \<rparr>"
  by (simp add: strip_entry_shared_def strip_args_touched)

lemma call_of_shared [simp]: "call_of (strip_entry_shared ts el) = call_of el"
  by (simp add: call_of_def strip_entry_shared_def)

lemma touched_by_shared [simp]:
  "touched_by (take k (map (strip_entry_shared ts) q)) = touched_by (take k q)"
  by (simp add: touched_by_def take_map strip_entry_shared_def comp_def)

lemma touched_by_Cons: "touched_by (el # q) = touched (q_args el) @ touched_by q"
  by (simp add: touched_by_def)

lemma has_args_shared [simp]: "has_args (strip_entry_shared ts el) = has_args el"
  by (simp add: has_args_def strip_entry_shared_def)

lemma q_eventName_shared [simp]: "q_eventName (strip_entry_shared ts el) = q_eventName el"
  by (simp add: strip_entry_shared_def)

lemma drain_acc:
  "drain remote q w calls0 =
     (case drain remote q w [] of (err, q', w', calls) \<Rightarrow> (err, q', w', calls0 @ calls))"
proof (induction q arbitrary: w calls0 rule: length_induct)
  case (1 q)
  show ?case
  proof (cases q)
    case Nil
    then show ?thesis by simp
  next
    case (Cons el rest)
    let ?rest = "map (strip_entry_shared (touched (q_args el))) rest"
    have len: "length ?rest < length q" using Cons by simp
    show ?thesis
    proof (cases "strip_args (q_args el)")
      case None
      with Cons show ?thesis by simp
    next
      case (Some args')
      show ?thesis
      proof (cases "remote w (q_eventName el) (take 3 args')")
        case None
        with Cons Some show ?thesis by simp
      next
        case (Some okw)
        obtain ok w1 where okw: "okw = (ok, w1)" by (cases okw)
        show ?thesis
        proof (cases ok)
          case True
          have a: "drain remote ?rest w1 (calls0 @ [(q_eventName el, take 3 args', True)]) =
              (case drain remote ?rest w1 [] of
                 (err, q', w', calls) \<Rightarrow>
                   (err, q', w', (calls0 @ [(q_eventName el, take 3 args', True)]) @ calls))"
            using 1 len by blast
          have b: "drain remote ?rest w1 [(q_eventName el, take 3 args', True)] =
              (case drain remote ?rest w1 [] of
                 (err, q', w', calls) \<Rightarrow>
                   (err, q', w', [(q_eventName el, take 3 args', True)] @ calls))"
            using 1 len by blast
          from a b True okw Some \<open>strip_args (q_args el) = Some args'\<close> Cons show ?thesis
            by (simp add: case_prod_beta)
        next
          case False
          with okw Some \<open>strip_args (q_args el) = Some args'\<close> Cons show ?thesis by simp
        qed
      qed
    qed
  qed
qed

lemma drained_Nil: "drained remote w [] [] w []"
  by (simp add: drained_def)

lemma drained_fail:
  assumes s: "strip_args (q_args el) = Some args'"
    and r: "remote w (q_eventName el) (take 3 args') = Some (False, w1)"
  shows "drained remote w (el # rest)
           (el\<lparr> q_args := args' \<rparr> # map (strip_entry_shared (touched (q_args el))) rest) w1
           [(q_eventName el, take 3 args', False)]"
proof -
  have c: "call_of el = (q_eventName el, take 3 args')"
    using s by (simp add: call_of_def)
  show ?thesis
    unfolding drained_def
    using s r c
    by (intro exI [of _ 1]) (simp add: touched_by_def strip_entry_shared_own)
qed

lemma drained_ok:
  assumes s: "strip_args (q_args el) = Some args'"
    and r: "remote w (q_eventName el) (take 3 args') = Some (True, w1)"
    and d: "drained remote w1 (map (strip_entry_shared (touched (q_args el))) rest) q' w' calls"
  shows "drained remote w (el # rest) q' w' ((q_eventName el, take 3 args', True) # calls)"
proof -
  let ?S = "strip_entry_shared (touched (q_args el))"
  from d obtain k where k: "k \<le> length rest"
    and m: "map (\<lambda>c. (fst c, fst (snd c))) calls = map call_of (take k (map ?S rest))"
    and a: "answers remote w1 (map call_of (take k (map ?S rest)))
              = (map (\<lambda>c. snd (snd c)) calls, w')"
    and alt: "(k = length rest \<and> q' = [] \<and> map (\<lambda>c. snd (snd c)) calls = replicate k True) \<or>
       (0 < k \<and> map (\<lambda>c. snd (snd c)) calls = replicate (k - 1) True @ [False] \<and>
        q' = map (strip_entry_shared (touched_by (take k (map ?S rest))))
               (drop (k - 1) (map ?S rest)))"
    unfolding drained_def by auto
  have cs: "map call_of (take k (map ?S rest)) = map call_of (take k rest)"
    by (simp add: take_map comp_def)
  have c: "call_of el = (q_eventName el, take 3 args')"
    using s by (simp add: call_of_def)
  have m': "map (\<lambda>c. (fst c, fst (snd c))) ((q_eventName el, take 3 args', True) # calls)
      = map call_of (take (Suc k) (el # rest))"
    using m cs c by simp
  have a': "answers remote w (map call_of (take (Suc k) (el # rest)))
      = (map (\<lambda>c. snd (snd c)) ((q_eventName el, take 3 args', True) # calls), w')"
    using a cs c r by simp
  from alt show ?thesis
  proof
    assume "k = length rest \<and> q' = [] \<and> map (\<lambda>c. snd (snd c)) calls = replicate k True"
    with m' a' show ?thesis
      unfolding drained_def by (intro exI [of _ "Suc k"]) simp
  next
    assume f: "0 < k \<and> map (\<lambda>c. snd (snd c)) calls = replicate (k - 1) True @ [False] \<and>
        q' = map (strip_entry_shared (touched_by (take k (map ?S rest))))
               (drop (k - 1) (map ?S rest))"
    then obtain j where j: "k = Suc j" by (cases k) auto
    from f have "q' = map (strip_entry_shared (touched_by (take (Suc k) (el # rest))))
        (drop (Suc k - 1) (el # rest))"
      by (simp add: j drop_map touched_by_Cons)
    with f k m' a' j show ?thesis
      unfolding drained_def by (intro exI [of _ "Suc k"]) simp
  qed
qed

lemma drain_drained:
  assumes "\<forall>el \<in> set q. has_args el \<and> (\<forall>w args. remote w (q_eventName el) args \<noteq> None)"
  shows "\<exists>q' w' calls. drain remote q w [] = (None, q', w', calls) \<and> drained remote w q q' w' calls"
  using assms
proof (induction q arbitrary: w rule: length_induct)
  case (1 q)
  show ?case
  proof (cases q)
    case Nil
    then show ?thesis by (simp add: drained_Nil)
  next
    case (Cons el rest)
    let ?rest = "map (strip_entry_shared (touched (q_args el))) rest"
    from 1(2) Cons obtain args' where s: "strip_args (q_args el) = Some args'"
      by (auto simp: has_args_def)
    from 1(2) Cons have "remote w (q_eventName el) (take 3 args') \<noteq> None" by simp
    then obtain ok w1 where r: "remote w (q_eventName el) (take 3 args') = Some (ok, w1)"
      by (cases "remote w (q_eventName el) (take 3 args')") auto
    show ?thesis
    proof (cases ok)
      case False
      with s r Cons drained_fail [OF s, of remote w w1 rest] show ?thesis by simp
    next
      case True
      have len: "length ?rest < length q" using Cons by simp
      from 1(2) Cons
      have "\<forall>el \<in> set ?rest. has_args el \<and> (\<forall>w args. remote w (q_eventName el) args \<noteq> None)"
        by auto
      with 1(1) len obtain q' w' calls where
        d: "drain remote ?rest w1 [] = (None, q', w', calls)" "drained remote w1 ?rest q' w' calls"
        by blast
      have "drain remote (el # rest) w []
          = (None, q', w', (q_eventName el, take 3 args', True) # calls)"
        using s r True d(1) drain_acc [of remote ?rest w1 "[(q_eventName el, take 3 args', True)]"]
        by simp
      with drained_ok [OF s _ d(2)] r True Cons show ?thesis by simp
    qed
  qed
qed

lemma strip_shared_flagless: "flagless a \<Longrightarrow> strip_shared ts a = a"
  by (cases a) (auto simp: strip_query_def list_all_iff filter_id_conv split: option.splits)

lemma strip_entry_shared_flagless:
  "list_all flagless (q_args el) \<Longrightarrow> strip_entry_shared ts el = el"
  by (simp add: strip_entry_shared_def list_all_iff strip_shared_flagless map_idI)

lemma strip_args_flagless: "list_all flagless as \<Longrightarrow> strip_args as = Some as"
proof (induction as)
  case Nil
  show ?case by simp
next
  case (Cons a as)
  from Cons.prems have "strip_arg a = Some a"
    by (cases a) (auto simp: strip_query_def list_all_iff filter_id_conv split: option.splits)
  with Cons show ?case by simp
qed

lemma strip_entry_flagless: "list_all flagless (q_args el) \<Longrightarrow> strip_entry el = el"
  by (simp add: strip_entry_def strip_args_flagless)

lemma set_insert_cmp: "set (insert_cmp cmp x xs) = insert x (set xs)"
  by (induction xs) auto

lemma set_sort_cmp: "set (sort_cmp cmp xs) = set xs"
  by (induction xs) (simp_all add: sort_cmp_def set_insert_cmp)

lemma set_sort_opt [simp]: "set (sort_opt srt xs) = set xs"
  by (simp add: sort_opt_def set_sort_cmp split: option.split)

lemma set_splice_out: "set (splice_out i xs) \<subseteq> set xs"
  unfolding splice_out_def
  using set_take_subset [of i xs] set_drop_subset [of "Suc i" xs] by auto

lemma passes_cong: "publication e' = publication e \<Longrightarrow> passes e' = passes e"
  by (rule ext) (simp add: passes_def)

lemma publication_mutateStore [simp]:
  "publication (snd (mutateStore now ev r source e)) = publication e"
  by (simp add: mutateStore_def Let_def broadcast_def set_records_def split: option.split)

lemma records_mutateStore:
  "set (records (store (snd (mutateStore now ev r source e))))
     \<subseteq> set (records (store e)) \<union>
        (if ev \<noteq> ''removed'' \<and> passes e r then {r\<lparr> updatedAt := Some (Date now) \<rparr>} else {})"
  using set_splice_out [of _ "records (store e)"]
  by (auto simp add: mutateStore_def Let_def broadcast_def set_records_def split: option.split)

lemma all_published_mutateStore:
  assumes "stamp_stable e" "all_published e"
  shows "all_published (snd (mutateStore now ev r source e))"
proof -
  have p: "passes (snd (mutateStore now ev r source e)) = passes e"
    by (rule passes_cong) simp
  show ?thesis
    unfolding all_published_def list_all_iff p
  proof
    fix x assume "x \<in> set (records (store (snd (mutateStore now ev r source e))))"
    with records_mutateStore [of now ev r source e]
    have "x \<in> set (records (store e)) \<or> (passes e r \<and> x = r\<lparr> updatedAt := Some (Date now) \<rparr>)"
      by (auto split: if_splits)
    with assms show "passes e x"
      by (auto simp: all_published_def list_all_iff stamp_stable_def)
  qed
qed

lemma step_publication [simp]: "publication (fst (step remote x (e, w))) = publication e"
proof (cases x)
  case (AddQueuedNetEvent ev r args)
  then show ?thesis
    by (auto simp: addQueuedNetEvent_def addQueuedEvent_def set_queued_def Let_def
        split: sum.splits option.splits if_splits)
next
  case (RemoveQueuedEvent ev r upd)
  then show ?thesis
    by (auto simp: removeQueuedEvent_def set_syncedAt_def set_queued_def Let_def
        split: sum.splits option.splits if_splits)
next
  case (RemoveQueuedNetEvent ev r upd)
  then show ?thesis
    by (auto simp: removeQueuedNetEvent_def set_syncedAt_def set_queued_def Let_def
        split: sum.splits option.splits if_splits)
qed (simp_all add: snapshot_def processQueuedEvents_def addQueuedEvent_def set_queued_def
      addListeners_def removeListeners_def notify_def changeSort_def set_records_def connect_def
      disconnect_def Let_def case_prod_beta split: option.split)

lemma records_connect:
  "records (store (fst (snd (connect remote w (Some recs) e))))
     = sort_opt (sorter e) (published e recs)"
  by (simp add: connect_def Let_def published_def snapshot_def processQueuedEvents_def
      set_queued_def addListeners_def removeListeners_def notify_def case_prod_beta
      split: option.split)

lemma records_connect_None:
  "records (store (fst (snd (connect remote w None e)))) = records (store e)"
  by (simp add: connect_def Let_def removeListeners_def notify_def)

lemma passes_published: "x \<in> set (published e recs) \<Longrightarrow> passes e x"
  by (auto simp: published_def passes_def split: option.splits)

lemma all_published_subset:
  assumes "publication e' = publication e" "set (records (store e')) \<subseteq> set (records (store e))"
    "all_published e"
  shows "all_published e'"
  using assms passes_cong [OF assms(1)]
  by (auto simp: all_published_def list_all_iff)

lemma step_records:
  "records (store (fst (step remote x (e, w)))) =
     (case x of
        Snapshot recs \<Rightarrow> sort_opt (sorter e) recs
      | MutateStore now ev r source \<Rightarrow> records (store (snd (mutateStore now ev r source e)))
      | ChangeSort srt \<Rightarrow> sort_opt srt (records (store e))
      | Connect (Some recs) \<Rightarrow> sort_opt (sorter e) (published e recs)
      | _ \<Rightarrow> records (store e))"
proof (cases x)
  case (AddQueuedNetEvent ev r args)
  then show ?thesis
    by (auto simp: addQueuedNetEvent_def addQueuedEvent_def set_queued_def Let_def
        split: sum.splits option.splits if_splits)
next
  case (RemoveQueuedEvent ev r upd)
  then show ?thesis
    by (auto simp: removeQueuedEvent_def set_syncedAt_def set_queued_def Let_def
        split: sum.splits option.splits if_splits)
next
  case (RemoveQueuedNetEvent ev r upd)
  then show ?thesis
    by (auto simp: removeQueuedNetEvent_def set_syncedAt_def set_queued_def Let_def
        split: sum.splits option.splits if_splits)
next
  case (Connect fetched)
  then show ?thesis
    using records_connect [of remote w _ e] records_connect_None [of remote w e]
    by (cases fetched) (simp_all add: case_prod_beta)
qed (simp_all add: snapshot_def processQueuedEvents_def addQueuedEvent_def set_queued_def
      addListeners_def removeListeners_def notify_def changeSort_def set_records_def
      disconnect_def Let_def case_prod_beta)

lemma step_all_published:
  assumes st: "stamp_stable e" and inv: "all_published e" and ok: "publishes_only e x"
  shows "all_published (fst (step remote x (e, w)))"
proof -
  have p: "passes (fst (step remote x (e, w))) = passes e"
    by (rule passes_cong) simp
  have "\<forall>y \<in> set (records (store (fst (step remote x (e, w))))). passes e y"
  proof (cases x)
    case (MutateStore now ev r source)
    have "passes (snd (mutateStore now ev r source e)) = passes e"
      by (rule passes_cong) simp
    with MutateStore all_published_mutateStore [OF st inv, of now ev r source] show ?thesis
      by (simp add: all_published_def list_all_iff)
  next
    case (Connect fetched)
    with inv show ?thesis
      by (cases fetched)
        (simp_all add: step_records all_published_def list_all_iff passes_published
          del: step.simps)
  qed (use inv ok in \<open>simp_all add: step_records all_published_def list_all_iff del: step.simps\<close>)
  then show ?thesis
    unfolding all_published_def p by (simp add: list_all_iff)
qed

lemma stamp_stable_step:
  "stamp_stable e \<Longrightarrow> stamp_stable (fst (step remote x (e, w)))"
  using passes_cong [of "fst (step remote x (e, w))" e]
  by (simp add: stamp_stable_def)

lemma publishes_only_step:
  "publishes_only e y \<Longrightarrow> publishes_only (fst (step remote x (e, w))) y"
  using passes_cong [of "fst (step remote x (e, w))" e]
  by (cases y) simp_all

lemma run_all_published:
  assumes "stamp_stable e" "all_published e" "\<forall>x \<in> set xs. publishes_only e x"
  shows "all_published (fst (run remote xs (e, w)))"
  using assms
proof (induction xs arbitrary: e w)
  case Nil
  then show ?case by simp
next
  case (Cons x xs)
  obtain e' w' where s: "step remote x (e, w) = (e', w')" by (cases "step remote x (e, w)")
  have e': "e' = fst (step remote x (e, w))" using s by simp
  have 1: "stamp_stable e'" unfolding e' by (rule stamp_stable_step) (rule Cons.prems(1))
  have 2: "all_published e'" unfolding e'
    using Cons.prems by (intro step_all_published) simp_all
  have 3: "\<forall>y \<in> set xs. publishes_only e' y" unfolding e'
    using Cons.prems(3) by (auto intro: publishes_only_step)
  from Cons.IH [OF 1 2 3] s show ?case by simp
qed

lemma mutateStore_left_pub_same_id:
  assumes ev: "ev \<noteq> ''removed''" and np: "\<not> passes e r"
  shows "let recs = records (store e);
             res = mutateStore now ev r source e;
             recs' = records (store (snd res));
             present = (\<exists>x \<in> set recs. same_id r x);
             l = \<lparr> l_source = Some source, l_action = ''left-pub'', l_eventName = Some ev,
                   l_record = Some r \<rparr>
         in fst res = None \<and>
            (present \<longrightarrow> (\<exists>i < length recs. same_id r (recs ! i) \<and>
                             (\<forall>j < i. \<not> same_id r (recs ! j)) \<and>
                             recs' = take i recs @ drop (Suc i) recs)) \<and>
            (\<not> present \<longrightarrow> recs' = recs) \<and>
            trace (snd res) = trace e @ (if present then [Emit recs' l, Subscriber recs' l] else [])"
proof (cases "findIndex (records (store e)) (same_id r)")
  case None
  then have "\<not> (\<exists>x \<in> set (records (store e)). same_id r x)"
    by (simp add: findIndex_None)
  with None ev np show ?thesis
    by (simp add: mutateStore_def Let_def)
next
  case (Some i)
  note fi = findIndex_Some [OF Some]
  then have "\<exists>x \<in> set (records (store e)). same_id r x"
    using nth_mem by blast
  with Some ev np fi show ?thesis
    by (auto simp add: mutateStore_def Let_def broadcast_def set_records_def splice_out_def
        passes_def split: option.splits)
qed

lemma mutateStore_left_pub:
  assumes ev: "ev \<noteq> ''removed''" and np: "\<not> passes e r"
  shows "let recs = records (store e);
             res = mutateStore now ev r source e;
             recs' = records (store (snd res));
             matches = (\<lambda>x. if rid r \<noteq> None then rid x = rid r else r_id x = r_id r);
             present = (\<exists>x \<in> set recs. matches x);
             l = \<lparr> l_source = Some source, l_action = ''left-pub'', l_eventName = Some ev,
                   l_record = Some r \<rparr>
         in fst res = None \<and>
            (present \<longrightarrow> (\<exists>i < length recs. matches (recs ! i) \<and>
                             (\<forall>j < i. \<not> matches (recs ! j)) \<and>
                             recs' = take i recs @ drop (Suc i) recs)) \<and>
            (\<not> present \<longrightarrow> recs' = recs) \<and>
            trace (snd res) = trace e @ (if present then [Emit recs' l, Subscriber recs' l] else [])"
  using mutateStore_left_pub_same_id [OF ev np, of now source]
  unfolding same_id_fields Let_def .

lemma uuid_select [simp]: "uuid (select ps alwaysSelect r) = uuid r"
  by (simp add: select_def pick_def alwaysSelect_def split: option.split)

lemma findUuidIndex_None:
  "findUuidIndex tonum recs u = None \<longleftrightarrow> (\<forall>x \<in> set recs. \<not> loose_eq tonum (uuid x) u)"
  by (simp add: findUuidIndex_def findIndex_None)

lemma findIdIndex_None:
  "findIdIndex tonum recs i = None \<longleftrightarrow>
     (\<forall>x \<in> set recs. \<not> (loose_eq tonum (rid x) i \<or> loose_eq tonum (r_id x) i))"
  by (simp add: findIdIndex_def findIndex_None)

lemma mutateStore_passes:
  assumes "ev \<noteq> ''removed''" "passes e r"
  shows "fst (mutateStore now ev r source e) = Some (r\<lparr> updatedAt := Some (Date now) \<rparr>)"
  using assms by (simp add: mutateStore_def Let_def)

section \<open>Claims\<close>



text \<open>
  C2. \<open>_addQueuedNetEvent\<close> after a queued \<open>remove\<close> of the same record. The queue holds
  the \<open>remove\<close> of record 1. A following \<open>update\<close> of record 1 is not refused: it
  overwrites the queued \<open>remove\<close>. A following \<open>create\<close> overwrites it as well, and is
  not inserted after it. The test \<open>queued[index].event !== 'remove'\<close> reads a property
  that no queue entry has.
\<close>

theorem addQueuedNetEvent_after_remove:
  "addQueuedNetEvent ''update'' rec1 [AId (Num 1), AData rec1, AParams params0]
       (set_queued [queued_remove1] engine0)
     = Inr (set_queued [\<lparr> q_eventName = ''update'', q_record = Some rec1,
                          q_args = [AId (Num 1), AData rec1, AParams params0] \<rparr>] engine0) \<and>
   addQueuedNetEvent ''create'' rec1 [AData rec1, AParams params0]
       (set_queued [queued_remove1] engine0)
     = Inr (set_queued [\<lparr> q_eventName = ''create'', q_record = Some rec1,
                          q_args = [AData rec1, AParams params0] \<rparr>] engine0)"
  by (simp add: addQueuedNetEvent_def set_queued_def engine0_def new_engine_def
      queued_remove1_def findIndexReversed_def q_same_id_def same_id_def idName_def getProp_def
      rec1_def q_event_def assign_def orElse_def)

text \<open>
  C6. \<open>_removeQueuedEvent\<close> with two queued \<open>create\<close> entries, of the records \<open>a\<close> and
  \<open>b\<close> made offline. The confirmation of the \<open>create\<close> of \<open>a\<close> removes the entry of \<open>b\<close>:
  the entries are compared on \<open>_id\<close>, which both records lack, and not on \<open>uuid\<close>.
\<close>

theorem removeQueuedEvent_wrong_entry:
  "removeQueuedEvent ''create'' (Some recA) None
       (set_queued [queued_create recA, queued_create recB] engine0)
     = Inr (set_queued [queued_create recA] engine0)"
  by (simp add: removeQueuedEvent_def u_useUuid_def set_queued_def engine0_def new_engine_def
      queued_create_def findIndexReversed_def idName_def getProp_def recA_def recB_def
      splice_out_def set_syncedAt_def numeral_2_eq_2)

text \<open>
  C10. \<open>removeListeners\<close> on an Engine that is not listening changes nothing: the flag,
  the listeners registered on the remote service, the store (\<open>records\<close>, \<open>queued\<close>,
  \<open>syncedAt\<close>, \<open>last\<close>) and the trace of what was sent to the emitter and the subscriber
  are as before, so that no \<open>remove-listeners\<close> goes out.
\<close>

theorem removeListeners_not_listening:
  "\<not> listening e \<Longrightarrow>
     removeListeners e = e \<and> listening (removeListeners e) = listening e \<and>
     store (removeListeners e) = store e \<and> trace (removeListeners e) = trace e \<and>
     attached (removeListeners e) = attached e"
  by (simp add: removeListeners_def)

theorem removeListeners_not_listening_witness:
  "\<not> listening engine12 \<and> removeListeners engine12 = engine12 \<and>
   trace (removeListeners engine12) = []"
  using removeListeners_not_listening [of engine12]
  by (simp add: engine12_def engine0_def new_engine_def set_records_def)

text \<open>
  C9. \<open>_find\<close> leaves the store as it is, for every params value: the arrays it filters,
  sorts, slices and maps are new ones, none is the record array of the store, and it
  calls nothing that writes \<open>records\<close> or \<open>queued\<close> or sends anything out.
\<close>

theorem find_leaves_store:
  "snd (m_find m ps e) = e \<and>
   records (store (snd (m_find m ps e))) = records (store e) \<and>
   queued (store (snd (m_find m ps e))) = queued (store e)"
proof -
  have "snd (find_arrays m ps 0 [records (store e)]) ! 0 = [records (store e)] ! 0"
    by (rule find_arrays_frame) simp
  then have "snd (m_find m ps e) = e"
    by (simp add: m_find_def set_records_def case_prod_beta)
  then show ?thesis by simp
qed

theorem find_leaves_store_witness:
  "snd (m_find mutator0 (params0\<lparr> p_sort := Some [(''order'', - 1)], p_skip := Some 1 \<rparr>) engine12)
     = engine12 \<and>
   records (store (snd (m_find mutator0
       (params0\<lparr> p_sort := Some [(''order'', - 1)], p_skip := Some 1 \<rparr>) engine12))) = [rec1, rec2]"
  using find_leaves_store [of mutator0
      "params0\<lparr> p_sort := Some [(''order'', - 1)], p_skip := Some 1 \<rparr>" engine12]
  by (simp add: engine12_def set_records_def)

text \<open>
  C3, as stated, fails: \<open>syncedAt\<close> decreases when a snapshot brings no record newer than
  the watermark (here an empty one, after a snapshot with a record of 2021), and when
  \<open>_removeQueuedEvent\<close> is given an \<open>updatedAt\<close> older than the watermark. It also falls
  back to \<open>DOB\<close> when the records of a snapshot carry \<open>Date\<close> objects: after a confirmation
  with the \<open>Date\<close> of a day in 2022, a snapshot with a record updated on that day in 2023
  leaves \<open>DOB\<close>.
\<close>

theorem syncedAt_decreases:
  "syncedAt (store (snapshot [rec2021] engine0)) = Iso ''2021-01-01T00:00:00.000Z'' \<and>
   syncedAt (store (snapshot [] (snapshot [rec2021] engine0))) = Iso DOB \<and>
   DOB < ''2021-01-01T00:00:00.000Z'' \<and>
   removeQueuedEvent ''create'' (Some rec1) (Some (Iso ''1999-01-01T00:00:00.000Z'')) engine0
     = Inr (set_syncedAt (Some (Iso ''1999-01-01T00:00:00.000Z'')) engine0) \<and>
   syncedAt (store (set_syncedAt (Some (Iso ''1999-01-01T00:00:00.000Z'')) engine0))
     = Iso ''1999-01-01T00:00:00.000Z'' \<and>
   syncedAt (store engine0) = Iso DOB \<and> ''1999-01-01T00:00:00.000Z'' < DOB \<and>
   removeQueuedEvent ''create'' (Some rec1) (Some (Date day2022)) engine0
     = Inr (set_syncedAt (Some (Date day2022)) engine0) \<and>
   syncedAt (store (set_syncedAt (Some (Date day2022)) engine0)) = Date day2022 \<and>
   syncedAt (store (snapshot [rec2023] (set_syncedAt (Some (Date day2022)) engine0))) = Iso DOB"
  by (simp add: snapshot_def latest_def rec2021_def rec2023_def rec1_def DOB_def Let_def
      engine0_def new_engine_def removeQueuedEvent_def findIndexReversed_def set_syncedAt_def
      u_useUuid_def truthy_def)

text \<open>
  C3, amended. \<open>syncedAt\<close> is written only by \<open>snapshot\<close> (direct, or in \<open>connect\<close> after the
  publication filter) and by a \<open>_removeQueuedEvent\<close> or \<open>_removeQueuedNetEvent\<close> that does
  not throw and is given a truthy \<open>updatedAt\<close>. \<open>snapshot\<close> sets it to the greatest
  \<open>updatedAt\<close> among those of its records that are strings and \<open>DOB\<close> (an \<open>updatedAt\<close> that
  is a \<open>Date\<close> object never counts), the removals set it to the \<open>updatedAt\<close> they are
  given, and every other operation leaves it as it is. Hence \<open>syncedAt\<close> does not
  decrease over a sequence of Engine operations in which every snapshot finds in
  \<open>syncedAt\<close> a string that is at most \<open>DOB\<close> or at most a string \<open>updatedAt\<close> of one of its
  records, and every removal from the queue is given no \<open>updatedAt\<close>, an empty one, or one
  of the kind of the current \<open>syncedAt\<close> (string or \<open>Date\<close>) that is at least it.
\<close>

theorem syncedAt_run:
  "syncedAt (store (fst (step remote x (e, w)))) = watermark_after x e \<and>
   latest recs = greatest recs \<and>
   (keeps_watermark_run remote xs (e, w) \<longrightarrow>
      no_earlier (syncedAt (store e)) (syncedAt (store (fst (run remote xs (e, w))))))"
  using syncedAt_step [of remote x e w] latest_greatest [of recs]
    run_keeps_watermark [of remote xs e w]
  by blast

theorem syncedAt_run_witness:
  "keeps_watermark_run no_remote
      [Snapshot [rec2021, rec2023], RemoveQueuedEvent ''create'' (Some rec1) None,
       MutateStore day2022 ''created'' rec2 0,
       RemoveQueuedEvent ''create'' (Some rec1) (Some (Iso ''2022-01-01T00:00:00.000Z''))]
      (engine0, ()) \<and>
   no_earlier (syncedAt (store engine0))
     (syncedAt (store (fst (run no_remote
        [Snapshot [rec2021, rec2023], RemoveQueuedEvent ''create'' (Some rec1) None,
         MutateStore day2022 ''created'' rec2 0,
         RemoveQueuedEvent ''create'' (Some rec1) (Some (Iso ''2022-01-01T00:00:00.000Z''))]
        (engine0, ()))))) \<and>
   syncedAt (store (fst (step no_remote (Snapshot [rec2021, rec2023]) (engine0, ()))))
     = Iso ''2021-01-01T00:00:00.000Z''"
proof -
  have g: "greatest [rec2021, rec2023] = Iso ''2021-01-01T00:00:00.000Z''"
    by (simp add: greatest_def iso_times_def rec2021_def rec2023_def DOB_def)
  have s0: "syncedAt (store engine0) = Iso DOB"
    by (simp add: engine0_def new_engine_def)
  have k: "keeps_watermark_run no_remote
      [Snapshot [rec2021, rec2023], RemoveQueuedEvent ''create'' (Some rec1) None,
       MutateStore day2022 ''created'' rec2 0,
       RemoveQueuedEvent ''create'' (Some rec1) (Some (Iso ''2022-01-01T00:00:00.000Z''))]
      (engine0, ())"
    using syncedAt_run [of no_remote "Snapshot [rec2021, rec2023]" engine0 "()"]
    by (simp add: g s0 covers_def removeQueuedEvent_def u_useUuid_def findIndexReversed_def
        snapshot_def Let_def engine0_def new_engine_def set_syncedAt_def)
  from syncedAt_run [where remote = no_remote and x = "Snapshot [rec2021, rec2023]"
      and e = engine0 and w = "()"
      and xs = "[Snapshot [rec2021, rec2023], RemoveQueuedEvent ''create'' (Some rec1) None,
       MutateStore day2022 ''created'' rec2 0,
       RemoveQueuedEvent ''create'' (Some rec1) (Some (Iso ''2022-01-01T00:00:00.000Z''))]"]
    k g
  show ?thesis by simp
qed

text \<open>
  C4, as stated, fails: the entry put back at the head is not the entry that was at the
  head, and the entries after it need not be as they were. Before the call
  \<open>processQueuedEvents\<close> deletes \<open>_fail\<close> and \<open>_timeout\<close> from the queries of the entry's
  arguments; the three entries here were queued with the same params object, whose
  query carries the flags, so after the first call, which fails, all three come back
  with an empty query.
\<close>

theorem processQueuedEvents_strips_failing_entry:
  "processQueuedEvents rejecting () engine_shared
     = (None,
        set_queued [shared_create params_plain recA, shared_remove params_plain,
                    shared_create params_plain recB] engine_shared,
        (), [(''create'', [AData recA, AParams params_plain], False)]) \<and>
   queued (store engine_shared)
     = [shared_create params_fail recA, shared_remove params_fail, shared_create params_fail recB] \<and>
   shared_create params_plain recA \<noteq> shared_create params_fail recA"
  by (simp add: processQueuedEvents_def rejecting_def set_queued_def engine_shared_def
      engine0_def new_engine_def shared_create_def shared_remove_def strip_query_def
      params_fail_def params_plain_def params0_def strip_entry_shared_def)

text \<open>
  C4, amended. For a queue whose entries have no \<open>null\<close> or \<open>undefined\<close> argument and name
  methods of the remote service, \<open>processQueuedEvents\<close> ends without exception and calls
  the remote service on the entries from the head on, in their order, each with its
  first three arguments, from whose queries \<open>_fail\<close> and \<open>_timeout\<close> are deleted. If the
  remote service answers every call with success, every entry is called and the queue
  is empty afterwards. If it answers a call with a failure, that is the last call, and
  the queue afterwards is the failing entry followed by the remaining entries in their
  order, where \<open>_fail\<close> and \<open>_timeout\<close> are deleted from every query object that is an
  argument of an entry that was called (those of the failing entry, and the query of a
  remaining entry that shares it with an entry that was called). In a queue without
  these flags the entries left are as they were. Nothing else of the Engine changes.
\<close>

theorem processQueuedEvents_head_to_tail:
  assumes "\<forall>el \<in> set (queued (store e)).
             has_args el \<and> (\<forall>w args. remote w (q_eventName el) args \<noteq> None)"
  shows "\<exists>q' w' calls.
           processQueuedEvents remote w e = (None, set_queued q' e, w', calls) \<and>
           drained remote w (queued (store e)) q' w' calls \<and>
           ((\<forall>el \<in> set (queued (store e)). list_all flagless (q_args el)) \<longrightarrow>
              (\<forall>el \<in> set (queued (store e)). strip_entry el = el) \<and>
              (\<forall>ts j. map (strip_entry_shared ts) (drop j (queued (store e)))
                         = drop j (queued (store e))))"
proof -
  from drain_drained [OF assms, of w] obtain q' w' calls where
    d: "drain remote (queued (store e)) w [] = (None, q', w', calls)"
      "drained remote w (queued (store e)) q' w' calls"
    by blast
  have "map (strip_entry_shared ts) (drop j (queued (store e))) = drop j (queued (store e))"
    if "\<forall>el \<in> set (queued (store e)). list_all flagless (q_args el)" for ts j
    using that by (intro map_idI) (auto dest: in_set_dropD simp: strip_entry_shared_flagless)
  with d show ?thesis
    by (auto simp: processQueuedEvents_def strip_entry_flagless)
qed

theorem processQueuedEvents_head_to_tail_witness:
  "list_all (\<lambda>el. has_args el \<and> (\<forall>w args. create_only w (q_eventName el) args \<noteq> None))
     (queued (store engine_shared)) \<and>
   (\<exists>q' w' calls.
      processQueuedEvents create_only () engine_shared
        = (None, set_queued q' engine_shared, w', calls) \<and>
      drained create_only () (queued (store engine_shared)) q' w' calls) \<and>
   processQueuedEvents create_only () engine_shared
     = (None,
        set_queued [shared_remove params_plain, shared_create params_plain recB] engine_shared,
        (),
        [(''create'', [AData recA, AParams params_plain], True),
         (''remove'', [AId (Num 1), AParams params_plain], False)]) \<and>
   answers create_only ()
       [(''create'', [AData recA, AParams params_plain]),
        (''remove'', [AId (Num 1), AParams params_plain])] = ([True, False], ())"
proof -
  have h: "\<forall>el \<in> set (queued (store engine_shared)).
      has_args el \<and> (\<forall>w args. create_only w (q_eventName el) args \<noteq> None)"
    by (simp add: engine_shared_def set_queued_def has_args_def create_only_def shared_create_def
        shared_remove_def)
  have v: "processQueuedEvents create_only () engine_shared
     = (None,
        set_queued [shared_remove params_plain, shared_create params_plain recB] engine_shared,
        (),
        [(''create'', [AData recA, AParams params_plain], True),
         (''remove'', [AId (Num 1), AParams params_plain], False)])"
    by (simp add: processQueuedEvents_def engine_shared_def set_queued_def create_only_def
        shared_create_def shared_remove_def params_fail_def params_plain_def params0_def
        strip_query_def strip_entry_shared_def)
  have a: "answers create_only ()
       [(''create'', [AData recA, AParams params_plain]),
        (''remove'', [AId (Num 1), AParams params_plain])] = ([True, False], ())"
    by (simp add: create_only_def)
  from processQueuedEvents_head_to_tail [OF h, of "()"] h v a show ?thesis
    unfolding list_all_iff by blast
qed

text \<open>
  C5, as stated, fails: \<open>_mutateStore\<close> tests the publication predicate on the incoming
  record and then writes the current time into its \<open>updatedAt\<close>, so the record it stores
  need not pass a predicate that reads \<open>updatedAt\<close>. With the publication of the records
  not updated since 2021, a remote \<open>updated\<close> of a record last updated in 2020 is stored
  with the \<open>updatedAt\<close> of the moment, in 2022.
\<close>

theorem stamped_record_leaves_publication:
  "passes engine_2021 rec2020 \<and> all_published engine_2021 \<and>
   records (store (snd (mutateStore day2022 ''updated'' rec2020 0 engine_2021)))
     = [rec2020\<lparr> updatedAt := Some (Date day2022) \<rparr>] \<and>
   \<not> passes (snd (mutateStore day2022 ''updated'' rec2020 0 engine_2021))
       (rec2020\<lparr> updatedAt := Some (Date day2022) \<rparr>) \<and>
   \<not> all_published (snd (mutateStore day2022 ''updated'' rec2020 0 engine_2021))"
  by (simp add: all_published_def passes_def engine_2021_def new_engine_def before_2021_def
      rec2020_def rec1_def mutateStore_def Let_def sort_opt_def broadcast_def set_records_def
      day2022_def)

text \<open>
  C5, amended. When a record that passes the publication predicate still passes it once
  its \<open>updatedAt\<close> is set to the current time (a \<open>Date\<close> object), every record of the store passes the
  predicate after every Engine operation and every \<open>connect\<close>, from the empty store of a
  new Engine on (a direct call of \<open>snapshot\<close> being given records that pass). For an
  event other than \<open>removed\<close> whose record fails the predicate, \<open>_mutateStore\<close> returns
  \<open>undefined\<close>, appends nothing, takes the record with that identifier out if there is
  one, and sends out \<open>left-pub\<close> exactly when there was one. \<open>connect\<close> hands to \<open>snapshot\<close>
  the fetched records that pass the predicate.
\<close>

theorem publication_invariant:
  "(stamp_stable e \<and> all_published e \<and> (\<forall>x \<in> set xs. publishes_only e x) \<longrightarrow>
      all_published (fst (run remote xs (e, w)))) \<and>
   (ev \<noteq> ''removed'' \<and> \<not> passes e r \<longrightarrow>
      (let recs = records (store e);
           res = mutateStore now ev r source e;
           recs' = records (store (snd res));
           matches = (\<lambda>x. if rid r \<noteq> None then rid x = rid r else r_id x = r_id r);
           present = (\<exists>x \<in> set recs. matches x);
           l = \<lparr> l_source = Some source, l_action = ''left-pub'', l_eventName = Some ev,
                 l_record = Some r \<rparr>
       in fst res = None \<and>
          (present \<longrightarrow> (\<exists>i < length recs. matches (recs ! i) \<and>
                           (\<forall>j < i. \<not> matches (recs ! j)) \<and>
                           recs' = take i recs @ drop (Suc i) recs)) \<and>
          (\<not> present \<longrightarrow> recs' = recs) \<and>
          trace (snd res) = trace e @ (if present then [Emit recs' l, Subscriber recs' l] else []))) \<and>
   records (store (fst (snd (connect remote w (Some fetched) e))))
     = sort_opt (sorter e) (published e fetched) \<and>
   list_all (passes e) (published e fetched) \<and>
   all_published (new_engine pub srt uu upd)"
proof -
  have a: "stamp_stable e \<and> all_published e \<and> (\<forall>x \<in> set xs. publishes_only e x) \<longrightarrow>
      all_published (fst (run remote xs (e, w)))"
    using run_all_published [of e xs remote w] by blast
  have d: "list_all (passes e) (published e fetched)"
    by (simp add: list_all_iff passes_published)
  have i: "all_published (new_engine pub srt uu upd)"
    by (simp add: all_published_def new_engine_def)
  from a mutateStore_left_pub [of ev e r now source] records_connect [of remote w fetched e] d i
  show ?thesis by blast
qed

theorem publication_invariant_witness:
  "stamp_stable engine_le_3 \<and> all_published engine_le_3 \<and>
   list_all (publishes_only engine_le_3)
     [Connect (Some [rec1, rec99]), MutateStore day2022 ''created'' rec2 0,
      MutateStore day2022 ''patched'' rec99 0, Snapshot [rec1]] \<and>
   all_published (fst (run no_remote
      [Connect (Some [rec1, rec99]), MutateStore day2022 ''created'' rec2 0,
       MutateStore day2022 ''patched'' rec99 0, Snapshot [rec1]] (engine_le_3, ()))) \<and>
   ''patched'' \<noteq> ''removed'' \<and> \<not> passes engine_le_3 rec99 \<and>
   fst (mutateStore day2022 ''patched'' rec99 0 engine_le_3) = None \<and>
   trace (snd (mutateStore day2022 ''patched'' rec99 0 engine_le_3)) = []"
proof -
  have h1: "stamp_stable engine_le_3"
    by (simp add: stamp_stable_def passes_def engine_le_3_def new_engine_def order_le_3_def)
  have h2: "all_published engine_le_3"
    by (simp add: all_published_def engine_le_3_def new_engine_def)
  have h3: "\<forall>x \<in> set [Connect (Some [rec1, rec99]), MutateStore day2022 ''created'' rec2 0,
                MutateStore day2022 ''patched'' rec99 0, Snapshot [rec1]].
      publishes_only engine_le_3 x"
    by (simp add: passes_def engine_le_3_def new_engine_def order_le_3_def rec1_def)
  have h4: "\<not> passes engine_le_3 rec99"
    by (simp add: passes_def engine_le_3_def new_engine_def order_le_3_def rec99_def)
  have h5: "records (store engine_le_3) = []"
    by (simp add: engine_le_3_def new_engine_def)
  from publication_invariant [of engine_le_3
      "[Connect (Some [rec1, rec99]), MutateStore day2022 ''created'' rec2 0,
        MutateStore day2022 ''patched'' rec99 0, Snapshot [rec1]]"
      no_remote "()" "''patched''" rec99 day2022 0]
    h1 h2 h3 h4 h5
  show ?thesis by (simp add: Let_def engine_le_3_def new_engine_def list_all_iff)
qed

text \<open>
  C7, as stated, fails: on a connected replicator with the publication of the records of
  order at most 3, \<open>create({ id: 99, order: 99 })\<close> mints a uuid that no record has, and
  \<open>_mutateStore\<close> returns \<open>undefined\<close> since the data fail the predicate; \<open>_create\<close>
  returns that, and no record with a uuid.
\<close>

theorem create_outside_publication:
  "connected online_le_3 \<and> uuid rec99 = None \<and>
   findUuidIndex (toNumber mutator0) (records (store online_le_3)) (Some (Str ''u-1'')) = None \<and>
   fst (m_create mutator0 day2022 ''u-1'' rec99 params0 online_le_3) = Inr None"
  by (simp add: connected_def online_le_3_def addListeners_def notify_def engine_le_3_def
      new_engine_def rec99_def findUuidIndex_def m_create_def mutateStore_def Let_def passes_def
      order_le_3_def select_result_def params0_def)

text \<open>
  C7, amended. For \<open>_create\<close> with data that are not an array: if the replicator is not
  connected it fails with BadRequest and leaves the Engine as it is; otherwise, if the
  data carry a uuid that a record of the store has (under \<open>==\<close>), it fails with
  BadRequest and leaves the Engine as it is; otherwise, if the data carry no uuid, the
  minted uuid matches no record and the data with it pass the publication predicate (or
  none is configured), the returned record has the minted string as its uuid.
\<close>

theorem create_checks:
  "(\<not> connected e \<longrightarrow> m_create m now minted data ps e = (Inl not_connected, e)) \<and>
   (connected e \<and> uuid data \<noteq> None \<and>
      (\<exists>x \<in> set (records (store e)). loose_eq (toNumber m) (uuid x) (uuid data)) \<longrightarrow>
      m_create m now minted data ps e
        = (Inl (BadRequest ''Optimistic create requires unique uuid. (owndata)''), e)) \<and>
   (connected e \<and> uuid data = None \<and>
      (\<forall>x \<in> set (records (store e)). \<not> loose_eq (toNumber m) (uuid x) (Some (Str minted))) \<and>
      passes e (data\<lparr> uuid := Some (Str minted) \<rparr>) \<longrightarrow>
      (\<exists>r. fst (m_create m now minted data ps e) = Inr (Some r) \<and> uuid r = Some (Str minted)))"
proof (intro conjI impI)
  assume "\<not> connected e"
  then show "m_create m now minted data ps e = (Inl not_connected, e)"
    by (simp add: m_create_def)
next
  assume a: "connected e \<and> uuid data \<noteq> None \<and>
      (\<exists>x \<in> set (records (store e)). loose_eq (toNumber m) (uuid x) (uuid data))"
  then have "findUuidIndex (toNumber m) (records (store e)) (uuid data) \<noteq> None"
    by (simp add: findUuidIndex_None)
  moreover from a obtain y where "uuid data = Some y" by auto
  moreover from a have "connected e" by simp
  ultimately show "m_create m now minted data ps e
        = (Inl (BadRequest ''Optimistic create requires unique uuid. (owndata)''), e)"
    by (simp add: m_create_def Let_def)
next
  assume a: "connected e \<and> uuid data = None \<and>
      (\<forall>x \<in> set (records (store e)). \<not> loose_eq (toNumber m) (uuid x) (Some (Str minted))) \<and>
      passes e (data\<lparr> uuid := Some (Str minted) \<rparr>)"
  then have n: "findUuidIndex (toNumber m) (records (store e)) (Some (Str minted)) = None"
    by (simp add: findUuidIndex_None)
  have "fst (mutateStore now ''created'' (data\<lparr> uuid := Some (Str minted) \<rparr>) 1 e)
      = Some (data\<lparr> uuid := Some (Str minted), updatedAt := Some (Date now) \<rparr>)"
    using a by (simp add: mutateStore_passes)
  with a n have "fst (m_create m now minted data ps e)
      = Inr (Some (select ps alwaysSelect (data\<lparr> uuid := Some (Str minted), updatedAt := Some (Date now) \<rparr>)))"
    by (simp add: m_create_def Let_def case_prod_beta select_result_def)
  then show "\<exists>r. fst (m_create m now minted data ps e) = Inr (Some r) \<and> uuid r = Some (Str minted)"
    by simp
qed

theorem create_checks_witness:
  "\<not> connected engine12 \<and>
   m_create mutator0 day2022 ''u-1'' rec1 params0 engine12 = (Inl not_connected, engine12) \<and>
   connected online12 \<and> uuid rec1 \<noteq> None \<and>
   (\<exists>x \<in> set (records (store online12)). loose_eq (toNumber mutator0) (uuid x) (uuid rec1)) \<and>
   m_create mutator0 day2022 ''u-1'' rec1 params0 online12
     = (Inl (BadRequest ''Optimistic create requires unique uuid. (owndata)''), online12) \<and>
   uuid rec99 = None \<and>
   list_all (\<lambda>x. \<not> loose_eq (toNumber mutator0) (uuid x) (Some (Str ''u-1'')))
     (records (store online12)) \<and>
   passes online12 (rec99\<lparr> uuid := Some (Str ''u-1'') \<rparr>) \<and>
   (\<exists>r. fst (m_create mutator0 day2022 ''u-1'' rec99 params0 online12) = Inr (Some r) \<and>
        uuid r = Some (Str ''u-1''))"
proof -
  have h1: "\<not> connected engine12"
    by (simp add: connected_def engine12_def engine0_def new_engine_def set_records_def)
  have h2: "connected online12"
    by (simp add: connected_def online12_def addListeners_def notify_def)
  have r: "records (store online12) = [rec1, rec2]"
    by (simp add: online12_def addListeners_def notify_def engine12_def set_records_def)
  have h3: "uuid rec1 \<noteq> None \<and>
     (\<exists>x \<in> set (records (store online12)). loose_eq (toNumber mutator0) (uuid x) (uuid rec1))"
    by (simp add: r rec1_def)
  have h4: "uuid rec99 = None \<and>
     (\<forall>x \<in> set (records (store online12)).
        \<not> loose_eq (toNumber mutator0) (uuid x) (Some (Str ''u-1'')))"
    by (simp add: r rec1_def rec2_def rec99_def mutator0_def)
  have h5: "passes online12 (rec99\<lparr> uuid := Some (Str ''u-1'') \<rparr>)"
    by (simp add: passes_def online12_def addListeners_def notify_def engine12_def
        set_records_def engine0_def new_engine_def)
  from create_checks [where e = engine12 and m = mutator0 and now = day2022
        and minted = "''u-1''" and data = rec1 and ps = params0]
    create_checks [where e = online12 and m = mutator0 and now = day2022
        and minted = "''u-1''" and data = rec1 and ps = params0]
    create_checks [where e = online12 and m = mutator0 and now = day2022
        and minted = "''u-1''" and data = rec99 and ps = params0]
    h1 h2 h3 h4 h5
  show ?thesis unfolding list_all_iff by blast
qed

text \<open>
  C8, as stated, fails: \<open>_update\<close>, \<open>_patch\<close> and \<open>_remove\<close> check the connection before
  they look the record up, so \<open>remove(9999)\<close> on a replicator that is not connected fails
  with BadRequest, not with NotFound.
\<close>

theorem remove_while_disconnected:
  "findIdIndex (toNumber mutator0) (records (store engine12)) (Some (Num 9999)) = None \<and>
   m_remove mutator0 day2022 (Some (Num 9999)) params0 engine12 = (Inl not_connected, engine12) \<and>
   not_connected \<noteq> NotFound ''No record found for id'' (Some (Num 9999))"
  by (simp add: findIdIndex_def engine12_def set_records_def engine0_def new_engine_def rec1_def
      rec2_def m_remove_def connected_def not_connected_def)

text \<open>
  C8, amended. For an identifier that matches no record of the store (the uuid under
  \<open>==\<close> for \<open>_get\<close>, the \<open>id\<close> or \<open>_id\<close> under \<open>==\<close> for the others, and not \<open>null\<close> for
  \<open>_patch\<close> and \<open>_remove\<close>): \<open>_get\<close> fails with NotFound; \<open>_update\<close>, \<open>_patch\<close> and
  \<open>_remove\<close> fail with BadRequest when the replicator is not connected, \<open>_update\<close> also
  when the data carry no uuid, and with NotFound otherwise. In each case the Engine, with
  \<open>records\<close> and \<open>queued\<close>, is as before the call.
\<close>

theorem not_found_leaves_store:
  "((\<forall>x \<in> set (records (store e)). \<not> loose_eq (toNumber m) (uuid x) u) \<longrightarrow>
      m_get m u ps e = (Inl (NotFound ''No record found for uuid'' u), e)) \<and>
   ((\<forall>x \<in> set (records (store e)).
       \<not> (loose_eq (toNumber m) (rid x) i \<or> loose_eq (toNumber m) (r_id x) i)) \<longrightarrow>
      m_update m now i data ps e
        = (if \<not> connected e then Inl not_connected
           else if uuid data = None
             then Inl (BadRequest ''Optimistic mutation requires uuid. (owndata)'')
           else Inl (NotFound ''No record found for id'' i), e) \<and>
      m_patch m now i data ps e
        = (if \<not> connected e then Inl not_connected
           else Inl (NotFound ''No record found for id'' i), e) \<and>
      m_remove m now i ps e
        = (if \<not> connected e then Inl not_connected
           else Inl (NotFound ''No record found for id'' i), e))"
proof (intro conjI impI)
  assume "\<forall>x \<in> set (records (store e)). \<not> loose_eq (toNumber m) (uuid x) u"
  then have "findUuidIndex (toNumber m) (records (store e)) u = None"
    by (simp add: findUuidIndex_None)
  then show "m_get m u ps e = (Inl (NotFound ''No record found for uuid'' u), e)"
    by (simp add: m_get_def)
next
  assume "\<forall>x \<in> set (records (store e)).
       \<not> (loose_eq (toNumber m) (rid x) i \<or> loose_eq (toNumber m) (r_id x) i)"
  then have n: "findIdIndex (toNumber m) (records (store e)) i = None"
    by (simp add: findIdIndex_None)
  from n show "m_update m now i data ps e
        = (if \<not> connected e then Inl not_connected
           else if uuid data = None
             then Inl (BadRequest ''Optimistic mutation requires uuid. (owndata)'')
           else Inl (NotFound ''No record found for id'' i), e)"
    by (simp add: m_update_def)
  from n show "m_patch m now i data ps e
        = (if \<not> connected e then Inl not_connected
           else Inl (NotFound ''No record found for id'' i), e)"
    by (simp add: m_patch_def)
  from n show "m_remove m now i ps e
        = (if \<not> connected e then Inl not_connected
           else Inl (NotFound ''No record found for id'' i), e)"
    by (simp add: m_remove_def)
qed

theorem not_found_leaves_store_witness:
  "list_all (\<lambda>x. \<not> loose_eq (toNumber mutator0) (uuid x) (Some (Num 9999)))
     (records (store online12)) \<and>
   m_get mutator0 (Some (Num 9999)) params0 online12
     = (Inl (NotFound ''No record found for uuid'' (Some (Num 9999))), online12) \<and>
   list_all (\<lambda>x. \<not> (loose_eq (toNumber mutator0) (rid x) (Some (Num 9999)) \<or>
                     loose_eq (toNumber mutator0) (r_id x) (Some (Num 9999))))
     (records (store online12)) \<and>
   connected online12 \<and>
   m_remove mutator0 day2022 (Some (Num 9999)) params0 online12
     = (Inl (NotFound ''No record found for id'' (Some (Num 9999))), online12) \<and>
   m_patch mutator0 day2022 (Some (Num 9999)) rec1 params0 online12
     = (Inl (NotFound ''No record found for id'' (Some (Num 9999))), online12) \<and>
   m_update mutator0 day2022 (Some (Num 9999)) rec1 params0 online12
     = (Inl (NotFound ''No record found for id'' (Some (Num 9999))), online12)"
proof -
  have r: "records (store online12) = [rec1, rec2]"
    by (simp add: online12_def addListeners_def notify_def engine12_def set_records_def)
  have c: "connected online12"
    by (simp add: connected_def online12_def addListeners_def notify_def)
  have h1: "\<forall>x \<in> set (records (store online12)).
      \<not> loose_eq (toNumber mutator0) (uuid x) (Some (Num 9999))"
    by (simp add: r rec1_def rec2_def)
  have h2: "\<forall>x \<in> set (records (store online12)).
       \<not> (loose_eq (toNumber mutator0) (rid x) (Some (Num 9999)) \<or>
          loose_eq (toNumber mutator0) (r_id x) (Some (Num 9999)))"
    by (simp add: r rec1_def rec2_def)
  have u: "uuid rec1 \<noteq> None" by (simp add: rec1_def)
  from not_found_leaves_store [where e = online12 and m = mutator0 and u = "Some (Num 9999)"
      and i = "Some (Num 9999)" and ps = params0 and now = day2022 and data = rec1] h1 h2 c u
  show ?thesis by (simp add: list_all_iff)
qed

end
